theory Spec2Isabelle
  imports Complex_Main
begin

section \<open>mc\_npt\_hs: Monte Carlo, NPT ensemble, hard spheres\<close>

text \<open>
  A shallow embedding of \<^verbatim>\<open>python_examples/mc_npt_hs.py\<close>.

  Conventions of the model.
  \<^item> Python's \<^verbatim>\<open>int\<close> is \<^typ>\<open>int\<close>. Python's \<^verbatim>\<open>float\<close> and numpy's
    \<^verbatim>\<open>float64\<close> are idealised as \<^typ>\<open>real\<close>: rounding, overflow, \<^verbatim>\<open>inf\<close> and
    \<^verbatim>\<open>nan\<close> are outside the model. Where the program divides by a zero box length
    (Python raises \<^verbatim>\<open>ZeroDivisionError\<close>, numpy delivers \<^verbatim>\<open>inf\<close> or \<^verbatim>\<open>nan\<close>) the
    model stops with \<open>ZeroDivisionError\<close>, since no real number results.
  \<^item> A row of the numpy array \<^verbatim>\<open>r\<close> is a list of reals, the array a list of rows.
  \<^item> The module globals \<^verbatim>\<open>n, box, r, m_ratio, v_ratio\<close> form a record that is passed
    along explicitly, together with the random generator and the trace of every print
    and of every effectful call into the collaborating modules.
  \<^item> The collaborating modules (\<^verbatim>\<open>maths_module\<close>, \<^verbatim>\<open>mc_hs_fast_module\<close>,
    \<^verbatim>\<open>mc_hs_slow_module\<close>, \<^verbatim>\<open>config_io_module\<close>) are parameters of the model,
    collected in the record \<open>env\<close>.
  \<^item> An exception is a value: a function that can raise returns
    \<open>(py_error \<times> event list) + 'a\<close>, the left injection holding the exception and the
    trace at the moment it was raised.
\<close>

subsection \<open>Python built-ins used by the program\<close>

text \<open>\<^verbatim>\<open>str(k)\<close> for an integer: its decimal digits, with a minus sign when negative.\<close>

definition digit_char :: "nat \<Rightarrow> char" where
  "digit_char d = ''0123456789'' ! d"

fun str_nat :: "nat \<Rightarrow> string" where
  "str_nat k = (if k < 10 then [digit_char k] else str_nat (k div 10) @ [digit_char (k mod 10)])"

declare str_nat.simps [simp del]

definition str :: "int \<Rightarrow> string" where
  "str k = (if k < 0 then CHR ''-'' # str_nat (nat (- k)) else str_nat (nat k))"

text \<open>
  \<^verbatim>\<open>s.zfill(w)\<close>: pad on the left with \<^verbatim>\<open>'0'\<close> up to width \<open>w\<close>; a leading sign stays in
  front of the padding; a string that is already wide enough is returned as it is.
\<close>

definition zfill :: "nat \<Rightarrow> string \<Rightarrow> string" where
  "zfill w s =
     (if w \<le> length s then s
      else (case s of
              [] \<Rightarrow> replicate w (CHR ''0'')
            | c # cs \<Rightarrow>
                if c = CHR ''+'' \<or> c = CHR ''-''
                then c # replicate (w - length s) (CHR ''0'') @ cs
                else replicate (w - length s) (CHR ''0'') @ s))"

subsection \<open>File tags\<close>

definition cnf_prefix :: string where "cnf_prefix = ''cnf.''"
definition inp_tag :: string where "inp_tag = ''inp''"
definition out_tag :: string where "out_tag = ''out''"

text \<open>
  Line 168: \<^verbatim>\<open>sav_tag = str(blk).zfill(3) if blk<1000 else 'sav'\<close>.
\<close>

definition sav_tag :: "int \<Rightarrow> string" where
  "sav_tag blk = (if blk < 1000 then zfill 3 (str blk) else ''sav'')"

subsection \<open>numpy built-ins used by the program\<close>

text \<open>
  \<^verbatim>\<open>np.rint\<close>: the nearest integer, a tie going to the even neighbour
  (\<^verbatim>\<open>np.rint(0.5) = 0.0\<close>, \<^verbatim>\<open>np.rint(1.5) = 2.0\<close>, \<^verbatim>\<open>np.rint(-0.5) = -0.0\<close>).
\<close>

definition rint :: "real \<Rightarrow> real" where
  "rint x =
     (let f = \<lfloor>x\<rfloor>; d = x - of_int f
      in if d < 1 / 2 then of_int f
         else if 1 / 2 < d then of_int (f + 1)
         else if even f then of_int f else of_int (f + 1))"

text \<open>\<^verbatim>\<open>v - np.rint(v)\<close> on a row and on an array (lines 121 and 140).\<close>

definition periodic_row :: "real list \<Rightarrow> real list" where
  "periodic_row v = map (\<lambda>x. x - rint x) v"

definition periodic :: "real list list \<Rightarrow> real list list" where
  "periodic a = map periodic_row a"

text \<open>\<^verbatim>\<open>a / c\<close> and \<^verbatim>\<open>a * c\<close> for an array and a scalar.\<close>

definition array_div :: "real list list \<Rightarrow> real \<Rightarrow> real list list" where
  "array_div a c = map (map (\<lambda>x. x / c)) a"

definition array_mul :: "real list list \<Rightarrow> real \<Rightarrow> real list list" where
  "array_mul a c = map (map (\<lambda>x. x * c)) a"

text \<open>\<^verbatim>\<open>np.delete(a, i, 0)\<close> for an index within range: the array without row \<open>i\<close>.\<close>

definition np_delete :: "'a list \<Rightarrow> nat \<Rightarrow> 'a list" where
  "np_delete a i = take i a @ drop (Suc i) a"

subsection \<open>Data of the program\<close>

text \<open>\<^verbatim>\<open>VariableType(nam = ..., val = ...)\<close>; the averaging method keeps its default.\<close>

record variable =
  nam :: string
  val :: real

text \<open>What the process does to the outside, in the order it does it.\<close>

datatype event =
    Print string
  | Print_int string int
  | Print_real string real
  | Warning string
  | Introduction
  | Conclusion
  | Seed
  | Read_cnf_atoms string
  | Write_cnf_atoms string int real "real list list"
  | Write_variables "variable list"
  | Run_begin "variable list"
  | Blk_begin
  | Blk_add "variable list"
  | Blk_end int
  | Run_end
  | Metropolis real

datatype py_error =
    AssertionError string
  | AttributeError
  | IndexError
  | NameError
  | TypeError
  | ZeroDivisionError

type_synonym 'a result = "(py_error \<times> event list) + 'a"

text \<open>The module globals that the simulation reads and writes.\<close>

record 'g globals =
  n :: int
  box :: real
  r :: "real list list"
  m_ratio :: "real option"
  v_ratio :: "real option"
  gen :: 'g
  trace :: "event list"

definition raise :: "py_error \<Rightarrow> 'g globals \<Rightarrow> 'a result" where
  "raise e s = Inl (e, trace s)"

definition emit :: "event \<Rightarrow> 'g globals \<Rightarrow> 'g globals" where
  "emit e s = s\<lparr>trace := trace s @ [e]\<rparr>"

text \<open>
  The collaborators. \<^verbatim>\<open>overlap\<close> and \<^verbatim>\<open>overlap_1\<close> come from the module chosen by
  \<^verbatim>\<open>fast\<close>; \<^verbatim>\<open>random_translate_vector\<close>, \<^verbatim>\<open>metropolis\<close> and \<^verbatim>\<open>np.random.rand\<close> draw
  from the generator and hand it back.
\<close>

record hs_module =
  overlap :: "real \<Rightarrow> real list list \<Rightarrow> bool"
  overlap_1 :: "real list \<Rightarrow> real \<Rightarrow> real list list \<Rightarrow> bool"

record 'g env =
  mc_hs_fast_module :: hs_module
  mc_hs_slow_module :: hs_module
  random_translate_vector :: "real \<Rightarrow> real list \<Rightarrow> 'g \<Rightarrow> real list \<times> 'g"
  metropolis :: "real \<Rightarrow> 'g \<Rightarrow> bool \<times> 'g"
  rand :: "'g \<Rightarrow> real \<times> 'g"
  seed :: 'g
  read_cnf_atoms :: "string \<Rightarrow> int \<times> real \<times> real list list"

record params =
  nblock :: int
  nstep :: int
  dr_max :: real
  db_max :: real
  pressure :: real
  fast :: bool

subsection \<open>The observable calculator (lines 4 to 45)\<close>

definition calculate :: "string option \<Rightarrow> 'g globals \<Rightarrow> (variable list \<times> 'g globals) result" where
  "calculate string s =
     (let vol = box s ^ 3 in
      if vol = 0 then raise ZeroDivisionError s
      else
        let rho = real_of_int (n s) / vol;
            density = \<lparr>nam = ''Density'', val = rho\<rparr>
        in case string of
             None \<Rightarrow>
               (case m_ratio s of
                  None \<Rightarrow> raise NameError s
                | Some m \<Rightarrow>
                    (case v_ratio s of
                       None \<Rightarrow> raise NameError s
                     | Some v \<Rightarrow>
                         Inr ([\<lparr>nam = ''Move ratio'', val = m\<rparr>,
                               \<lparr>nam = ''Volume ratio'', val = v\<rparr>, density], s)))
           | Some label \<Rightarrow>
               (let variables = [\<lparr>nam = ''Move ratio'', val = 0\<rparr>,
                                 \<lparr>nam = ''Volume ratio'', val = 0\<rparr>, density]
                in Inr (variables,
                        emit (Write_variables (drop 2 variables)) (emit (Print label) s))))"

subsection \<open>One trial move of atom \<open>i\<close> (lines 139 to 145)\<close>

definition atom_move ::
  "'g env \<Rightarrow> hs_module \<Rightarrow> params \<Rightarrow> nat \<Rightarrow> 'g globals \<times> int \<Rightarrow> ('g globals \<times> int) result" where
  "atom_move env hs p i sm =
     (let s = fst sm; moves = snd sm in
      if box s = 0 then raise ZeroDivisionError s
      else if length (r s) \<le> i then raise IndexError s
      else
        let (ri, g) = random_translate_vector env (dr_max p / box s) (r s ! i) (gen s);
            ri = periodic_row ri;
            rj = np_delete (r s) i
        in if \<not> overlap_1 hs ri (box s) rj
           then Inr (s\<lparr>r := (r s)[i := ri], gen := g\<rparr>, moves + 1)
           else Inr (s\<lparr>gen := g\<rparr>, moves))"

text \<open>\<^verbatim>\<open>for i in range(n)\<close>, over the list of indices still to visit.\<close>

fun atoms_loop ::
  "'g env \<Rightarrow> hs_module \<Rightarrow> params \<Rightarrow> nat list \<Rightarrow> 'g globals \<times> int \<Rightarrow> ('g globals \<times> int) result" where
  "atoms_loop env hs p [] sm = Inr sm"
| "atoms_loop env hs p (i # is) sm =
     (case atom_move env hs p i sm of
        Inl e \<Rightarrow> Inl e
      | Inr sm' \<Rightarrow> atoms_loop env hs p is sm')"

subsection \<open>The volume move (lines 149 to 162)\<close>

definition box_scale_of :: "real \<Rightarrow> real \<Rightarrow> real" where
  "box_scale_of u db = exp ((2 * u - 1) * db)"

definition delta_of :: "real \<Rightarrow> int \<Rightarrow> real \<Rightarrow> real \<Rightarrow> real \<Rightarrow> real" where
  "delta_of P N b b_new den_scale =
     (let delta = P * (b_new ^ 3 - b ^ 3)
      in delta + real_of_int (N + 1) * ln den_scale)"

definition volume_move :: "'g env \<Rightarrow> hs_module \<Rightarrow> params \<Rightarrow> 'g globals \<Rightarrow> 'g globals" where
  "volume_move env hs p s =
     (let s = s\<lparr>v_ratio := Some 0\<rparr>;
          (zeta, g) = rand env (gen s);
          s = s\<lparr>gen := g\<rparr>;
          box_scale = box_scale_of zeta (db_max p);
          box_new = box s * box_scale;
          den_scale = 1 / box_scale ^ 3
      in if \<not> overlap hs box_new (r s)
         then
           let delta = delta_of (pressure p) (n s) (box s) box_new den_scale;
               (accept, g) = metropolis env delta (gen s);
               s = emit (Metropolis delta) (s\<lparr>gen := g\<rparr>)
           in if accept then s\<lparr>box := box_new, v_ratio := Some 1\<rparr> else s
         else s)"

subsection \<open>Steps and blocks (lines 130 to 169)\<close>

definition step :: "'g env \<Rightarrow> hs_module \<Rightarrow> params \<Rightarrow> 'g globals \<Rightarrow> 'g globals result" where
  "step env hs p s =
     (case atoms_loop env hs p [0 ..< nat (n s)] (s, 0) of
        Inl e \<Rightarrow> Inl e
      | Inr (s, moves) \<Rightarrow>
          if n s = 0 then raise ZeroDivisionError s
          else
            let s = s\<lparr>m_ratio := Some (real_of_int moves / real_of_int (n s))\<rparr>;
                s = volume_move env hs p s
            in case calculate None s of
                 Inl e \<Rightarrow> Inl e
               | Inr (variables, s) \<Rightarrow> Inr (emit (Blk_add variables) s))"

text \<open>\<^verbatim>\<open>for stp in range(nstep)\<close>, by the number of steps still to run.\<close>

fun steps :: "'g env \<Rightarrow> hs_module \<Rightarrow> params \<Rightarrow> nat \<Rightarrow> 'g globals \<Rightarrow> 'g globals result" where
  "steps env hs p 0 s = Inr s"
| "steps env hs p (Suc k) s =
     (case step env hs p s of
        Inl e \<Rightarrow> Inl e
      | Inr s' \<Rightarrow> steps env hs p k s')"

definition block :: "'g env \<Rightarrow> hs_module \<Rightarrow> params \<Rightarrow> int \<Rightarrow> 'g globals \<Rightarrow> 'g globals result" where
  "block env hs p blk s =
     (case steps env hs p (nat (nstep p)) (emit Blk_begin s) of
        Inl e \<Rightarrow> Inl e
      | Inr s \<Rightarrow>
          Inr (emit (Write_cnf_atoms (cnf_prefix @ sav_tag blk) (n s) (box s)
                       (array_mul (r s) (box s)))
                 (emit (Blk_end blk) s)))"

text \<open>\<^verbatim>\<open>for blk in range(1, nblock+1)\<close>, over the list of block numbers still to run.\<close>

fun blocks :: "'g env \<Rightarrow> hs_module \<Rightarrow> params \<Rightarrow> int list \<Rightarrow> 'g globals \<Rightarrow> 'g globals result" where
  "blocks env hs p [] s = Inr s"
| "blocks env hs p (blk # blks) s =
     (case block env hs p blk s of
        Inl e \<Rightarrow> Inl e
      | Inr s' \<Rightarrow> blocks env hs p blks s')"

subsection \<open>Run parameters (lines 79 to 100)\<close>

text \<open>
  What \<^verbatim>\<open>json.load\<close> delivers: a JSON value as the Python object it becomes. An object
  is the list of its items in order, as \<^verbatim>\<open>nml.items()\<close> yields them (the keys of a
  Python \<^verbatim>\<open>dict\<close> are distinct).
\<close>

datatype json =
    JNull
  | JBool bool
  | JInt int
  | JFloat real
  | JStr string
  | JArr "json list"
  | JObj "(string \<times> json) list"

datatype py_type = Py_NoneType | Py_bool | Py_int | Py_float | Py_str | Py_list | Py_dict

fun type_of :: "json \<Rightarrow> py_type" where
  "type_of JNull = Py_NoneType"
| "type_of (JBool _) = Py_bool"
| "type_of (JInt _) = Py_int"
| "type_of (JFloat _) = Py_float"
| "type_of (JStr _) = Py_str"
| "type_of (JArr _) = Py_list"
| "type_of (JObj _) = Py_dict"

definition defaults :: "(string \<times> json) list" where
  "defaults =
     [(''nblock'', JInt 10), (''nstep'', JInt 1000), (''dr_max'', JFloat (15 / 100)),
      (''db_max'', JFloat (5 / 1000)), (''pressure'', JFloat 4), (''fast'', JBool True)]"

text \<open>
  The loop of lines 88 to 92. The assertion of line 90 raises \<^verbatim>\<open>AssertionError\<close> with
  the message \<^verbatim>\<open>key+" has the wrong type"\<close>.
\<close>

fun check_keys :: "(string \<times> json) list \<Rightarrow> event list \<Rightarrow> event list result" where
  "check_keys [] t = Inr t"
| "check_keys ((key, v) # rest) t =
     (case map_of defaults key of
        Some d \<Rightarrow>
          if type_of v = type_of d then check_keys rest t
          else Inl (AssertionError (key @ '' has the wrong type''), t)
      | None \<Rightarrow> check_keys rest (t @ [Warning key]))"

text \<open>\<^verbatim>\<open>nml[key] if key in nml else defaults[key]\<close>.\<close>

definition setting :: "(string \<times> json) list \<Rightarrow> string \<Rightarrow> json option" where
  "setting nml key = (case map_of nml key of Some v \<Rightarrow> Some v | None \<Rightarrow> map_of defaults key)"

definition int_setting :: "(string \<times> json) list \<Rightarrow> string \<Rightarrow> int option" where
  "int_setting nml key = (case setting nml key of Some (JInt k) \<Rightarrow> Some k | _ \<Rightarrow> None)"

definition float_setting :: "(string \<times> json) list \<Rightarrow> string \<Rightarrow> real option" where
  "float_setting nml key = (case setting nml key of Some (JFloat x) \<Rightarrow> Some x | _ \<Rightarrow> None)"

definition bool_setting :: "(string \<times> json) list \<Rightarrow> string \<Rightarrow> bool option" where
  "bool_setting nml key = (case setting nml key of Some (JBool b) \<Rightarrow> Some b | _ \<Rightarrow> None)"

text \<open>
  Lines 95 to 100. After \<open>check_keys\<close> every setting has the type of its default, so the
  result is never \<open>None\<close> then (lemma \<open>set_params_after_check\<close>).
\<close>

definition set_params :: "(string \<times> json) list \<Rightarrow> params option" where
  "set_params nml =
     (case int_setting nml ''nblock'' of None \<Rightarrow> None | Some nb \<Rightarrow>
      case int_setting nml ''nstep'' of None \<Rightarrow> None | Some ns \<Rightarrow>
      case float_setting nml ''dr_max'' of None \<Rightarrow> None | Some dr \<Rightarrow>
      case float_setting nml ''db_max'' of None \<Rightarrow> None | Some db \<Rightarrow>
      case float_setting nml ''pressure'' of None \<Rightarrow> None | Some pr \<Rightarrow>
      case bool_setting nml ''fast'' of None \<Rightarrow> None | Some f \<Rightarrow>
        Some \<lparr>nblock = nb, nstep = ns, dr_max = dr, db_max = db, pressure = pr, fast = f\<rparr>)"

subsection \<open>The main program\<close>

text \<open>
  Lines 102 to 128, with the parameters set: the module is chosen, the configuration is
  read and wrapped, and the run of averages begins.
\<close>

definition startup ::
  "'g env \<Rightarrow> params \<Rightarrow> event list \<Rightarrow> (params \<times> hs_module \<times> 'g globals) result" where
  "startup env p t =
     (let hs = (if fast p then mc_hs_fast_module env else mc_hs_slow_module env);
          t = t @ [Introduction, Seed,
                   Print_int ''Number of blocks'' (nblock p),
                   Print_int ''Number of steps per block'' (nstep p),
                   Print_real ''Pressure'' (pressure p),
                   Print_real ''Maximum displacement'' (dr_max p),
                   Print_real ''Maximum box displacement'' (db_max p)];
          (n0, box0, r0) = read_cnf_atoms env (cnf_prefix @ inp_tag);
          t = t @ [Read_cnf_atoms (cnf_prefix @ inp_tag),
                   Print_int ''Number of particles'' n0,
                   Print_real ''Box length'' box0]
      in if box0 = 0 then Inl (ZeroDivisionError, t)
         else
           let s = \<lparr>n = n0, box = box0, r = periodic (array_div r0 box0),
                    m_ratio = None, v_ratio = None, gen = seed env, trace = t\<rparr>
           in if overlap hs (box s) (r s)
              then raise (AssertionError ''Overlap in initial configuration'') s
              else (case calculate (Some ''Initial values'') s of
                      Inl e \<Rightarrow> Inl e
                    | Inr (variables, s) \<Rightarrow> Inr (p, hs, emit (Run_begin variables) s)))"

text \<open>
  Lines 86 to 128, from the parsed parameters to the start of the run. A JSON value that
  is not an object has no \<^verbatim>\<open>items\<close>.
\<close>

definition initialise ::
  "'g env \<Rightarrow> json \<Rightarrow> event list \<Rightarrow> (params \<times> hs_module \<times> 'g globals) result" where
  "initialise env nml t =
     (case nml of
        JObj items \<Rightarrow>
          (case check_keys items t of
             Inl e \<Rightarrow> Inl e
           | Inr t \<Rightarrow>
               (case set_params items of
                  None \<Rightarrow> Inl (TypeError, t)
                | Some p \<Rightarrow> startup env p t))
      | _ \<Rightarrow> Inl (AttributeError, t))"

text \<open>Lines 171 to 177.\<close>

definition finalise :: "hs_module \<Rightarrow> 'g globals \<Rightarrow> 'g globals result" where
  "finalise hs s =
     (case calculate (Some ''Final values'') (emit Run_end s) of
        Inl e \<Rightarrow> Inl e
      | Inr (variables, s) \<Rightarrow>
          if overlap hs (box s) (r s)
          then raise (AssertionError ''Overlap in final configuration'') s
          else Inr (emit Conclusion
                      (emit (Write_cnf_atoms (cnf_prefix @ out_tag) (n s) (box s)
                               (array_mul (r s) (box s))) s)))"

definition run :: "'g env \<Rightarrow> json \<Rightarrow> event list \<Rightarrow> 'g globals result" where
  "run env nml t =
     (case initialise env nml t of
        Inl e \<Rightarrow> Inl e
      | Inr (p, hs, s) \<Rightarrow>
          (case blocks env hs p [1 .. nblock p] s of
             Inl e \<Rightarrow> Inl e
           | Inr s \<Rightarrow> finalise hs s))"

text \<open>
  How the process ends: it runs to its last line, it calls \<^verbatim>\<open>sys.exit()\<close>, or an
  exception reaches the top level. \<^verbatim>\<open>sys.exit()\<close> without an argument gives the exit
  status 0, an uncaught exception the status 1.
\<close>

datatype outcome = Finished | SystemExit | Uncaught py_error

fun exit_status :: "outcome \<Rightarrow> int" where
  "exit_status Finished = 0"
| "exit_status SystemExit = 0"
| "exit_status (Uncaught _) = 1"

text \<open>
  The whole program. Its input is what \<^verbatim>\<open>json.load(sys.stdin)\<close> does: \<open>None\<close> when it
  raises \<^verbatim>\<open>JSONDecodeError\<close>, the parsed value otherwise. The result is how the process
  ends, what it did on the way, and the globals it has built (if it came to build any
  and ran to completion).
\<close>

definition main :: "'g env \<Rightarrow> json option \<Rightarrow> outcome \<times> event list \<times> 'g globals option" where
  "main env loaded =
     (let t = [Print ''mc_npt_hs'', Print ''Monte Carlo, constant-NPT ensemble'']
      in case loaded of
           None \<Rightarrow> (SystemExit, t @ [Print ''Exiting on Invalid JSON format''], None)
         | Some nml \<Rightarrow>
             (case run env nml t of
                Inl (e, t) \<Rightarrow> (Uncaught e, t, None)
              | Inr s \<Rightarrow> (Finished, trace s, Some s)))"

subsection \<open>Snapshots written\<close>

text \<open>The file names of the calls of \<^verbatim>\<open>write_cnf_atoms\<close> in a trace, in their order.\<close>

fun snapshot_names :: "event list \<Rightarrow> string list" where
  "snapshot_names [] = []"
| "snapshot_names (Write_cnf_atoms name _ _ _ # es) = name # snapshot_names es"
| "snapshot_names (_ # es) = snapshot_names es"

subsection \<open>Supplied keys\<close>

text \<open>
  \<^verbatim>\<open>key in defaults\<close>; an item whose key is in \<^verbatim>\<open>defaults\<close> and whose value has another
  type than the default; and the warnings that the keys not in \<^verbatim>\<open>defaults\<close> give rise to.
\<close>

definition recognized :: "string \<Rightarrow> bool" where
  "recognized key = (map_of defaults key \<noteq> None)"

definition wrong_type :: "string \<times> json \<Rightarrow> bool" where
  "wrong_type item =
     (case map_of defaults (fst item) of
        None \<Rightarrow> False
      | Some d \<Rightarrow> type_of (snd item) \<noteq> type_of d)"

definition warnings :: "(string \<times> json) list \<Rightarrow> event list" where
  "warnings items = map Warning (filter (\<lambda>key. \<not> recognized key) (map fst items))"

subsection \<open>The periodic cell\<close>

text \<open>
  Every component of every row within \<open>[-1/2, 1/2]\<close>, and within the half-open
  \<open>[-1/2, 1/2)\<close>.
\<close>

definition closed_cell :: "real list list \<Rightarrow> bool" where
  "closed_cell a = list_all (list_all (\<lambda>x. - (1 / 2) \<le> x \<and> x \<le> 1 / 2)) a"

definition half_open_cell :: "real list list \<Rightarrow> bool" where
  "half_open_cell a = list_all (list_all (\<lambda>x. - (1 / 2) \<le> x \<and> x < 1 / 2)) a"

subsection \<open>An environment to run the model on\<close>

text \<open>
  Hard spheres of diameter 1 with the minimum-image distance, a generator that is the list
  of the uniform numbers still to be drawn, and a configuration of two spheres in contact
  (centres at \<open>(1, 0, 0)\<close> and the origin, box length 2).
\<close>

definition hs_overlap_1 :: "real list \<Rightarrow> real \<Rightarrow> real list list \<Rightarrow> bool" where
  "hs_overlap_1 ri b rj =
     list_ex (\<lambda>rk. (\<Sum>d \<leftarrow> periodic_row (map2 (-) ri rk). d * d) * (b * b) < 1) rj"

fun hs_overlap :: "real \<Rightarrow> real list list \<Rightarrow> bool" where
  "hs_overlap b [] = False"
| "hs_overlap b (ri # rest) = (hs_overlap_1 ri b rest \<or> hs_overlap b rest)"

definition example_hs :: hs_module where
  "example_hs = \<lparr>overlap = hs_overlap, overlap_1 = hs_overlap_1\<rparr>"

definition example_env :: "real list \<Rightarrow> real list env" where
  "example_env g0 =
     \<lparr>mc_hs_fast_module = example_hs,
      mc_hs_slow_module = example_hs,
      random_translate_vector =
        (\<lambda>dr old g. (map2 (\<lambda>x u. x + (2 * u - 1) * dr) old (take (length old) g),
                      drop (length old) g)),
      metropolis =
        (\<lambda>delta g. if delta \<le> 0 then (True, g)
                    else (case g of [] \<Rightarrow> (False, []) | u # g' \<Rightarrow> (u < exp (- delta), g'))),
      rand = (\<lambda>g. case g of [] \<Rightarrow> (0, []) | u # g' \<Rightarrow> (u, g')),
      seed = g0,
      read_cnf_atoms = (\<lambda>name. (2, 2, [[1, 0, 0], [0, 0, 0]]))\<rparr>"

definition example_params :: "real \<Rightarrow> params" where
  "example_params P =
     \<lparr>nblock = 1, nstep = 1, dr_max = 1 / 10, db_max = 1, pressure = P, fast = False\<rparr>"

definition example_globals :: "real list \<Rightarrow> real list globals" where
  "example_globals g =
     \<lparr>n = 2, box = 2, r = [[1 / 2, 0, 0], [0, 0, 0]], m_ratio = Some 1, v_ratio = None,
      gen = g, trace = []\<rparr>"

section \<open>Properties\<close>

subsection \<open>Decimal strings\<close>

lemma less_10_cases: "k < 10 \<Longrightarrow> k \<in> {0, 1, 2, 3, 4, 5, 6, 7, 8, 9::nat}"
  by auto

lemma digit_char_not_sign:
  assumes "k < 10"
  shows "digit_char k \<noteq> CHR ''+'' \<and> digit_char k \<noteq> CHR ''-''"
  using less_10_cases [OF assms] by (auto simp: digit_char_def)

lemma str_nat_one_digit: "k < 10 \<Longrightarrow> str_nat k = [digit_char k]"
  by (subst str_nat.simps) simp

lemma str_nat_two_digits:
  assumes "10 \<le> k" "k < 100"
  shows "str_nat k = [digit_char (k div 10), digit_char (k mod 10)]"
proof -
  from assms have "k div 10 < 10" by simp
  then have "str_nat (k div 10) = [digit_char (k div 10)]" by (rule str_nat_one_digit)
  with assms show ?thesis by (subst str_nat.simps) simp
qed

lemma str_nat_three_digits:
  assumes "100 \<le> k" "k < 1000"
  shows "str_nat k = [digit_char (k div 100), digit_char (k div 10 mod 10), digit_char (k mod 10)]"
proof -
  from assms have "10 \<le> k div 10" "k div 10 < 100" by simp_all
  then have "str_nat (k div 10) = [digit_char (k div 10 div 10), digit_char (k div 10 mod 10)]"
    by (rule str_nat_two_digits)
  moreover have "k div 10 div 10 = k div 100" by (simp add: div_mult2_eq [symmetric])
  ultimately show ?thesis using assms by (subst str_nat.simps) simp
qed

lemma zfill_str_nat_below_1000:
  assumes "k < 1000"
  shows "zfill 3 (str_nat k) =
           [digit_char (k div 100), digit_char (k div 10 mod 10), digit_char (k mod 10)]"
proof -
  consider "k < 10" | "10 \<le> k" "k < 100" | "100 \<le> k" using assms by linarith
  then show ?thesis
  proof cases
    case 1
    then have "k div 100 = 0" "k div 10 = 0" by simp_all
    with 1 digit_char_not_sign [OF 1] show ?thesis
      by (simp add: str_nat_one_digit zfill_def numeral_3_eq_3 digit_char_def)
  next
    case 2
    then have "k div 100 = 0" "k div 10 < 10" by simp_all
    with 2 digit_char_not_sign [of "k div 10"] show ?thesis
      by (simp add: str_nat_two_digits zfill_def digit_char_def)
  next
    case 3
    with assms show ?thesis
      by (simp add: str_nat_three_digits zfill_def)
  qed
qed

subsection \<open>The volume move\<close>

lemma volume_move_overlap:
  assumes "rand env (gen s) = (u, g)"
    and "overlap hs (box s * box_scale_of u (db_max p)) (r s)"
  shows "volume_move env hs p s = s\<lparr>v_ratio := Some 0, gen := g\<rparr>"
  using assms by (simp add: volume_move_def Let_def)

lemma volume_move_no_overlap:
  assumes "rand env (gen s) = (u, g)"
    and "\<not> overlap hs (box s * box_scale_of u (db_max p)) (r s)"
    and "metropolis env (delta_of (pressure p) (n s) (box s) (box s * box_scale_of u (db_max p))
           (1 / box_scale_of u (db_max p) ^ 3)) g = (accept, g')"
  shows "volume_move env hs p s =
           (if accept
            then s\<lparr>v_ratio := Some 1, gen := g', box := box s * box_scale_of u (db_max p),
                   trace := trace s @ [Metropolis (delta_of (pressure p) (n s) (box s)
                      (box s * box_scale_of u (db_max p)) (1 / box_scale_of u (db_max p) ^ 3))]\<rparr>
            else s\<lparr>v_ratio := Some 0, gen := g',
                   trace := trace s @ [Metropolis (delta_of (pressure p) (n s) (box s)
                      (box s * box_scale_of u (db_max p)) (1 / box_scale_of u (db_max p) ^ 3))]\<rparr>)"
  using assms by (simp add: volume_move_def Let_def emit_def)

lemma box_scale_of_pos: "0 < box_scale_of u db"
  by (simp add: box_scale_of_def)

lemma volume_move_frame_aux:
  "r (volume_move env hs p s) = r s \<and> n (volume_move env hs p s) = n s
   \<and> m_ratio (volume_move env hs p s) = m_ratio s"
  by (simp add: volume_move_def Let_def emit_def split: prod.splits)

lemma volume_move_box_pos:
  assumes "0 < box s"
  shows "0 < box (volume_move env hs p s)"
  using assms box_scale_of_pos
  by (simp add: volume_move_def Let_def emit_def split: prod.splits)

lemma ex_rand: "rand (example_env g0) (u # g) = (u, g)"
  by (simp add: example_env_def)

lemma ex_overlap_iff:
  "overlap example_hs b [[1 / 2, 0, 0], [0, 0, 0]] \<longleftrightarrow> b * b < 4"
  by (simp add: example_hs_def hs_overlap_1_def periodic_row_def rint_def)

lemma ex_delta_reject:
  "metropolis (example_env []) (4 * ((2 * exp 1) ^ 3 - 2 ^ 3) + 3 * ln (1 / exp 1 ^ 3)) [1 / 4]
     = (False, [])"
proof -
  define delta :: real where "delta = 4 * ((2 * exp 1) ^ 3 - 2 ^ 3) + 3 * ln (1 / exp 1 ^ 3)"
  have e3: "exp 1 ^ 3 = exp (3::real)"
    using exp_of_nat_mult [of 3 "1::real"] by simp
  have "1 + 3 \<le> exp (3::real)" by (rule exp_ge_add_one_self)
  then have "(4::real) \<le> exp 3" by simp
  moreover have "delta = 32 * exp 3 - 41"
    by (simp add: delta_def power_mult_distrib e3 ln_div)
  ultimately have big: "87 \<le> delta" by simp
  have "1 + delta \<le> exp delta" by (rule exp_ge_add_one_self)
  with big have "4 \<le> exp delta" by linarith
  then have "inverse (exp delta) \<le> inverse 4"
    by (rule le_imp_inverse_le) simp
  then have "\<not> 1 / 4 < exp (- delta)" by (simp add: exp_minus)
  with big show ?thesis
    unfolding delta_def [symmetric] by (simp add: example_env_def)
qed

lemma ex_delta_accept:
  "metropolis (example_env []) (0 * ((2 * exp 1) ^ 3 - 2 ^ 3) + 3 * ln (1 / exp 1 ^ 3)) [1 / 4]
     = (True, [1 / 4])"
  by (simp add: example_env_def ln_div ln_realpow)

text \<open>
  C1. When the rescaled box passes the overlap gate, \<^verbatim>\<open>metropolis\<close> is called exactly once,
  and the argument it is given is \<open>delta = P * (V' - V) + (N + 1) * ln s\<close>, where \<open>V = box\<^sup>3\<close>,
  \<open>V' = box_new\<^sup>3\<close> and \<open>s = 1 / box_scale\<^sup>3 = box_scale\<^sup>-\<^sup>3\<close>, which is \<open>V / V'\<close> for a box
  length other than 0: whatever \<^verbatim>\<open>metropolis\<close> is, the move ends as its answer at this
  \<open>delta\<close> (and at the generator left by the draw of \<open>zeta\<close>) says, and the call is logged
  with this \<open>delta\<close>. The factor of the logarithm is \<open>N + 1\<close>: for \<open>N \<ge> 0\<close> the term is the
  logarithm of \<open>s\<close> to the power \<open>N + 1\<close>.
\<close>

theorem volume_move_delta:
  assumes "rand env (gen s) = (u, g)"
    and "box_scale = exp ((2 * u - 1) * db_max p)"
    and "box_new = box s * box_scale"
    and "\<not> overlap hs box_new (r s)"
    and "delta = pressure p * (box_new ^ 3 - box s ^ 3)
                   + real_of_int (n s + 1) * ln (1 / box_scale ^ 3)"
  shows "volume_move env hs p s =
           (if fst (metropolis env delta g)
            then s\<lparr>v_ratio := Some 1, gen := snd (metropolis env delta g), box := box_new,
                   trace := trace s @ [Metropolis delta]\<rparr>
            else s\<lparr>v_ratio := Some 0, gen := snd (metropolis env delta g),
                   trace := trace s @ [Metropolis delta]\<rparr>)
         \<and> trace (volume_move env hs p s) = trace s @ [Metropolis delta]
         \<and> 1 / box_scale ^ 3 = box_scale powr (- 3)
         \<and> (box s \<noteq> 0 \<longrightarrow> 1 / box_scale ^ 3 = box s ^ 3 / box_new ^ 3)
         \<and> (0 \<le> n s \<longrightarrow>
              real_of_int (n s + 1) * ln (1 / box_scale ^ 3)
                = ln ((box_scale powr (- 3)) ^ (nat (n s) + 1)))"
proof -
  have bs: "box_scale_of u (db_max p) = box_scale"
    using assms(2) by (simp add: box_scale_of_def)
  have d: "delta_of (pressure p) (n s) (box s) (box s * box_scale_of u (db_max p))
             (1 / box_scale_of u (db_max p) ^ 3) = delta"
    using bs assms(3,5) by (simp add: delta_of_def Let_def)
  obtain accept g' where m: "metropolis env delta g = (accept, g')"
    by (cases "metropolis env delta g")
  have pos: "0 < box_scale" using assms(2) by simp
  have no: "\<not> overlap hs (box s * box_scale_of u (db_max p)) (r s)"
    using assms(3,4) bs by simp
  from m d have m': "metropolis env (delta_of (pressure p) (n s) (box s)
      (box s * box_scale_of u (db_max p)) (1 / box_scale_of u (db_max p) ^ 3)) g = (accept, g')"
    by simp
  from volume_move_no_overlap [OF assms(1) no m']
  have full: "volume_move env hs p s =
           (if fst (metropolis env delta g)
            then s\<lparr>v_ratio := Some 1, gen := snd (metropolis env delta g), box := box_new,
                   trace := trace s @ [Metropolis delta]\<rparr>
            else s\<lparr>v_ratio := Some 0, gen := snd (metropolis env delta g),
                   trace := trace s @ [Metropolis delta]\<rparr>)"
    using bs d m assms(3) by simp
  then have t: "trace (volume_move env hs p s) = trace s @ [Metropolis delta]"
    by simp
  have pw: "1 / box_scale ^ 3 = box_scale powr (- 3)"
    using pos by (simp add: powr_minus_divide powr_numeral)
  have v: "1 / box_scale ^ 3 = box s ^ 3 / box_new ^ 3" if "box s \<noteq> 0"
    using that pos assms(3) by (simp add: power_mult_distrib)
  have e: "real_of_int (n s + 1) * ln (1 / box_scale ^ 3)
                = ln ((box_scale powr (- 3)) ^ (nat (n s) + 1))" if "0 \<le> n s"
  proof -
    have "ln ((box_scale powr (- 3)) ^ (nat (n s) + 1))
        = real (nat (n s) + 1) * ln (box_scale powr (- 3))"
      by (rule ln_realpow)
    moreover have "real (nat (n s) + 1) = real_of_int (n s + 1)" using that by simp
    ultimately show ?thesis using pw by simp
  qed
  from full t pw v e show ?thesis by blast
qed

theorem volume_move_delta_witness:
  "volume_move (example_env []) example_hs (example_params 4) (example_globals [1, 1 / 4])
     = (example_globals [])\<lparr>v_ratio := Some 0,
          trace := [Metropolis (4 * ((2 * exp 1) ^ 3 - 2 ^ 3) + 3 * ln (1 / exp 1 ^ 3))]\<rparr>
   \<and> volume_move (example_env []) example_hs (example_params 0) (example_globals [1, 1 / 4])
     = (example_globals [1 / 4])\<lparr>v_ratio := Some 1, box := 2 * exp 1,
          trace := [Metropolis (0 * ((2 * exp 1) ^ 3 - 2 ^ 3) + 3 * ln (1 / exp 1 ^ 3))]\<rparr>"
proof -
  have h1: "rand (example_env []) (gen (example_globals [1, 1 / 4])) = (1, [1 / 4])"
    by (simp add: example_globals_def ex_rand)
  have h2: "exp 1 = exp ((2 * 1 - 1) * db_max (example_params P))" for P
    by (simp add: example_params_def)
  have h3: "2 * exp 1 = box (example_globals [1, 1 / 4]) * exp 1"
    by (simp add: example_globals_def)
  have "(1::real) \<le> exp 1 * exp 1"
    by (simp add: mult_exp_exp)
  then have h4: "\<not> overlap example_hs (2 * exp 1) (r (example_globals [1, 1 / 4]))"
    by (simp add: example_globals_def ex_overlap_iff)
  have h5: "P * ((2 * exp 1) ^ 3 - 2 ^ 3) + 3 * ln (1 / exp 1 ^ 3)
      = pressure (example_params P) * ((2 * exp 1) ^ 3 - box (example_globals [1, 1 / 4]) ^ 3)
         + real_of_int (n (example_globals [1, 1 / 4]) + 1) * ln (1 / exp 1 ^ 3)" for P
    by (simp add: example_globals_def example_params_def)
  from volume_move_delta [OF h1 h2 h3 h4 h5, of 4, THEN conjunct1]
  have w1: "volume_move (example_env []) example_hs (example_params 4)
              (example_globals [1, 1 / 4])
     = (example_globals [])\<lparr>v_ratio := Some 0,
          trace := [Metropolis (4 * ((2 * exp 1) ^ 3 - 2 ^ 3) + 3 * ln (1 / exp 1 ^ 3))]\<rparr>"
    by (simp only: ex_delta_reject) (simp add: example_globals_def)
  from volume_move_delta [OF h1 h2 h3 h4 h5, of 0, THEN conjunct1]
  have w2: "volume_move (example_env []) example_hs (example_params 0)
              (example_globals [1, 1 / 4])
     = (example_globals [1 / 4])\<lparr>v_ratio := Some 1, box := 2 * exp 1,
          trace := [Metropolis (0 * ((2 * exp 1) ^ 3 - 2 ^ 3) + 3 * ln (1 / exp 1 ^ 3))]\<rparr>"
    by (simp only: ex_delta_accept) (simp add: example_globals_def)
  from w1 w2 show ?thesis by (rule conjI)
qed

text \<open>
  C2. When the rescaled box causes overlap, the move is rejected without a call of
  \<^verbatim>\<open>metropolis\<close>: the trace gets no \<open>Metropolis\<close> event and the generator has given the one
  number for \<open>zeta\<close> only; the box length is unchanged and \<^verbatim>\<open>v_ratio\<close> is 0.
\<close>

theorem volume_move_overlap_rejected:
  assumes "rand env (gen s) = (u, g)"
    and "overlap hs (box s * exp ((2 * u - 1) * db_max p)) (r s)"
  shows "box (volume_move env hs p s) = box s
         \<and> v_ratio (volume_move env hs p s) = Some 0
         \<and> trace (volume_move env hs p s) = trace s
         \<and> gen (volume_move env hs p s) = g
         \<and> volume_move env hs p s = s\<lparr>v_ratio := Some 0, gen := g\<rparr>"
proof -
  have "overlap hs (box s * box_scale_of u (db_max p)) (r s)"
    using assms(2) by (simp add: box_scale_of_def)
  from volume_move_overlap [OF assms(1) this] show ?thesis by simp
qed

theorem volume_move_overlap_rejected_witness:
  "rand (example_env []) (gen (example_globals [0, 1 / 4])) = (0, [1 / 4])
   \<and> overlap example_hs (2 * exp (- 1)) (r (example_globals [0, 1 / 4]))
   \<and> volume_move (example_env []) example_hs (example_params 4) (example_globals [0, 1 / 4])
       = (example_globals [1 / 4])\<lparr>v_ratio := Some 0\<rparr>"
proof -
  have h1: "rand (example_env []) (gen (example_globals [0, 1 / 4])) = (0, [1 / 4])"
    by (simp add: example_globals_def ex_rand)
  have "exp (- 1) * exp (- 1) < (1::real)"
    by (simp add: mult_exp_exp)
  then have h2: "overlap example_hs (box (example_globals [0, 1 / 4])
                   * exp ((2 * 0 - 1) * db_max (example_params 4)))
                   (r (example_globals [0, 1 / 4]))"
    by (simp add: example_globals_def example_params_def ex_overlap_iff)
  from volume_move_overlap_rejected [OF h1 h2] h1 h2 show ?thesis
    by (simp add: example_globals_def example_params_def)
qed

text \<open>
  C8. A volume move leaves the array of positions and the particle count as they were;
  an accepted one (\<^verbatim>\<open>v_ratio = 1.0\<close>) replaces the box length by the proposed one.
\<close>

theorem volume_move_changes_box_only:
  "r (volume_move env hs p s) = r s
   \<and> n (volume_move env hs p s) = n s
   \<and> (v_ratio (volume_move env hs p s) = Some 1 \<longrightarrow>
        box (volume_move env hs p s)
          = box s * exp ((2 * fst (rand env (gen s)) - 1) * db_max p))"
  by (simp add: volume_move_def Let_def emit_def box_scale_of_def split: prod.splits)

theorem volume_move_changes_box_only_witness:
  "v_ratio (volume_move (example_env []) example_hs (example_params 0)
              (example_globals [1, 1 / 4])) = Some 1
   \<and> box (volume_move (example_env []) example_hs (example_params 0)
              (example_globals [1, 1 / 4])) = 2 * exp 1
   \<and> r (volume_move (example_env []) example_hs (example_params 0)
              (example_globals [1, 1 / 4])) = [[1 / 2, 0, 0], [0, 0, 0]]
   \<and> n (volume_move (example_env []) example_hs (example_params 0)
              (example_globals [1, 1 / 4])) = 2"
proof -
  have h1: "rand (example_env []) (gen (example_globals [1, 1 / 4])) = (1, [1 / 4])"
    by (simp add: example_globals_def ex_rand)
  have "(1::real) \<le> exp 1 * exp 1"
    by (simp add: mult_exp_exp)
  then have h2: "\<not> overlap example_hs (box (example_globals [1, 1 / 4])
                   * box_scale_of 1 (db_max (example_params 0)))
                   (r (example_globals [1, 1 / 4]))"
    by (simp add: example_globals_def example_params_def ex_overlap_iff box_scale_of_def)
  have "ln (1 / exp 1 ^ 3) = (- 3 :: real)"
    by (simp add: ln_div ln_realpow)
  then have h3: "metropolis (example_env [])
           (delta_of (pressure (example_params 0)) (n (example_globals [1, 1 / 4]))
              (box (example_globals [1, 1 / 4]))
              (box (example_globals [1, 1 / 4]) * box_scale_of 1 (db_max (example_params 0)))
              (1 / box_scale_of 1 (db_max (example_params 0)) ^ 3)) [1 / 4] = (True, [1 / 4])"
    by (simp add: example_globals_def example_params_def box_scale_of_def delta_of_def
        example_env_def)
  have acc: "v_ratio (volume_move (example_env []) example_hs (example_params 0)
              (example_globals [1, 1 / 4])) = Some 1"
    by (simp add: volume_move_no_overlap [OF h1 h2 h3])
  from volume_move_changes_box_only [of "example_env []" example_hs "example_params 0"
      "example_globals [1, 1 / 4]"] acc h1
  show ?thesis
    by (simp add: example_globals_def example_params_def)
qed

subsection \<open>The trial move of one atom\<close>

lemma length_np_delete: "i < length a \<Longrightarrow> length (np_delete a i) = length a - 1"
  by (simp add: np_delete_def)

lemma nth_np_delete:
  "i < length a \<Longrightarrow> j < length a - 1 \<Longrightarrow> np_delete a i ! j = a ! (if j < i then j else Suc j)"
  by (auto simp: np_delete_def nth_append min_def)

lemma atom_move_eq:
  assumes "i < length (r s)" "box s \<noteq> 0"
    and "random_translate_vector env (dr_max p / box s) (r s ! i) (gen s) = (v, g)"
  shows "atom_move env hs p i (s, moves) =
           (if overlap_1 hs (periodic_row v) (box s) (np_delete (r s) i)
            then Inr (s\<lparr>gen := g\<rparr>, moves)
            else Inr (s\<lparr>r := (r s)[i := periodic_row v], gen := g\<rparr>, moves + 1))"
  using assms by (simp add: atom_move_def Let_def)

lemma ex_translate:
  "random_translate_vector (example_env g0) dr [x, y, z] (u1 # u2 # u3 # g)
     = ([x + (2 * u1 - 1) * dr, y + (2 * u2 - 1) * dr, z + (2 * u3 - 1) * dr], g)"
  by (simp add: example_env_def)

text \<open>
  C3. In the trial move of atom \<open>i\<close> the wrapped trial position is tested with
  \<^verbatim>\<open>overlap_1\<close> against the array without row \<open>i\<close>: the other positions, one fewer than
  there are rows, in their order. Without overlap the trial position replaces row \<open>i\<close>
  and the move counter goes up by one; with overlap the positions and the counter stay
  as they were.
\<close>

theorem atom_move_accept_iff_no_overlap:
  assumes "i < length (r s)" and "box s \<noteq> 0"
    and "random_translate_vector env (dr_max p / box s) (r s ! i) (gen s) = (v, g)"
    and "ri = periodic_row v"
    and "rj = np_delete (r s) i"
  shows "length rj = length (r s) - 1
         \<and> (\<forall>j < length rj. rj ! j = r s ! (if j < i then j else Suc j))
         \<and> (\<not> overlap_1 hs ri (box s) rj \<longrightarrow>
              atom_move env hs p i (s, moves)
                = Inr (s\<lparr>r := (r s)[i := ri], gen := g\<rparr>, moves + 1))
         \<and> (overlap_1 hs ri (box s) rj \<longrightarrow>
              atom_move env hs p i (s, moves) = Inr (s\<lparr>gen := g\<rparr>, moves))"
  using assms
  by (simp add: atom_move_eq length_np_delete nth_np_delete)

theorem atom_move_accept_iff_no_overlap_witness:
  "atom_move (example_env []) example_hs (example_params 4) 0
      (example_globals [1 / 2, 1, 1 / 2, 3], 0)
     = Inr ((example_globals [3])\<lparr>r := [[1 / 2, 1 / 20, 0], [0, 0, 0]]\<rparr>, 1)
   \<and> atom_move (example_env []) example_hs (example_params 4) 0
      (example_globals [1, 1 / 2, 1 / 2, 3], 0)
     = Inr (example_globals [3], 0)
   \<and> np_delete (r (example_globals [])) 0 = [[0, 0, 0]]"
proof -
  have h1: "0 < length (r (example_globals g))" for g
    by (simp add: example_globals_def)
  have h2: "box (example_globals g) \<noteq> 0" for g
    by (simp add: example_globals_def)
  have h3: "random_translate_vector (example_env [])
              (dr_max (example_params 4) / box (example_globals [1 / 2, 1, 1 / 2, 3]))
              (r (example_globals [1 / 2, 1, 1 / 2, 3]) ! 0)
              (gen (example_globals [1 / 2, 1, 1 / 2, 3])) = ([1 / 2, 1 / 20, 0], [3])"
    by (simp add: example_globals_def example_params_def ex_translate)
  have h4: "random_translate_vector (example_env [])
              (dr_max (example_params 4) / box (example_globals [1, 1 / 2, 1 / 2, 3]))
              (r (example_globals [1, 1 / 2, 1 / 2, 3]) ! 0)
              (gen (example_globals [1, 1 / 2, 1 / 2, 3])) = ([11 / 20, 0, 0], [3])"
    by (simp add: example_globals_def example_params_def ex_translate)
  have p1: "periodic_row [1 / 2, 1 / 20, 0] = [1 / 2, 1 / 20, 0]"
    by (simp add: periodic_row_def rint_def)
  have p2: "periodic_row [11 / 20, 0, 0] = [- 9 / 20, 0, 0]"
    by (simp add: periodic_row_def rint_def)
  have d: "np_delete (r (example_globals g)) 0 = [[0, 0, 0]]" for g
    by (simp add: np_delete_def example_globals_def)
  have o1: "\<not> overlap_1 example_hs [1 / 2, 1 / 20, 0] (box (example_globals g)) [[0, 0, 0]]" for g
    by (simp add: example_hs_def hs_overlap_1_def periodic_row_def rint_def example_globals_def)
  have o2: "overlap_1 example_hs [- 9 / 20, 0, 0] (box (example_globals g)) [[0, 0, 0]]" for g
    by (simp add: example_hs_def hs_overlap_1_def periodic_row_def rint_def example_globals_def)
  from atom_move_accept_iff_no_overlap [OF h1 h2 h3 p1 [symmetric] d [symmetric], of example_hs 0]
       atom_move_accept_iff_no_overlap [OF h1 h2 h4 p2 [symmetric] d [symmetric], of example_hs 0]
       o1 o2 d
  show ?thesis
    by (simp add: example_globals_def)
qed

subsection \<open>The observable calculator\<close>

text \<open>
  C5. For a box length other than 0 (and, in a step, with both ratios assigned)
  \<^verbatim>\<open>calculate\<close> returns the list of the move ratio, the volume ratio and the density, in
  this order, the density being \<open>n / box\<^sup>3\<close> of the globals at the call.
\<close>

theorem calculate_variables:
  assumes "box s \<noteq> 0"
    and "string = None \<longrightarrow> m_ratio s = Some m \<and> v_ratio s = Some v"
  shows "calculate string s =
           Inr ([\<lparr>nam = ''Move ratio'', val = (if string = None then m else 0)\<rparr>,
                 \<lparr>nam = ''Volume ratio'', val = (if string = None then v else 0)\<rparr>,
                 \<lparr>nam = ''Density'', val = real_of_int (n s) / box s ^ 3\<rparr>],
                (case string of
                   None \<Rightarrow> s
                 | Some label \<Rightarrow>
                     s\<lparr>trace := trace s @
                         [Print label,
                          Write_variables
                            [\<lparr>nam = ''Density'', val = real_of_int (n s) / box s ^ 3\<rparr>]]\<rparr>))"
  using assms by (cases string) (simp_all add: calculate_def Let_def emit_def)

theorem calculate_variables_witness:
  "calculate None (example_globals []\<lparr>v_ratio := Some 0\<rparr>)
     = Inr ([\<lparr>nam = ''Move ratio'', val = 1\<rparr>, \<lparr>nam = ''Volume ratio'', val = 0\<rparr>,
             \<lparr>nam = ''Density'', val = 1 / 4\<rparr>], example_globals []\<lparr>v_ratio := Some 0\<rparr>)
   \<and> map val (fst (projr (calculate (Some ''Final values'') (example_globals []))))
     = [0, 0, 1 / 4]"
proof -
  have h1: "box (example_globals []\<lparr>v_ratio := Some 0\<rparr>) \<noteq> 0"
    by (simp add: example_globals_def)
  have h2: "None = None \<longrightarrow> m_ratio (example_globals []\<lparr>v_ratio := Some 0\<rparr>) = Some 1
            \<and> v_ratio (example_globals []\<lparr>v_ratio := Some 0\<rparr>) = Some 0"
    by (simp add: example_globals_def)
  have h3: "box (example_globals []) \<noteq> 0"
    by (simp add: example_globals_def)
  have h4: "Some ''Final values'' = None \<longrightarrow> m_ratio (example_globals []) = Some 0
            \<and> v_ratio (example_globals []) = Some 0"
    by simp
  from calculate_variables [OF h1 h2] calculate_variables [OF h3 h4]
  show ?thesis
    by (simp add: example_globals_def)
qed

subsection \<open>Invariants of the run\<close>

lemma rint_diff_bounds: "- (1 / 2) \<le> x - rint x \<and> x - rint x \<le> 1 / 2"
proof -
  define d where "d = x - of_int \<lfloor>x\<rfloor>"
  have d: "0 \<le> d" "d < 1" unfolding d_def by linarith+
  consider (lo) "d < 1 / 2" | (hi) "1 / 2 < d" | (tie) "d = 1 / 2" by linarith
  then show ?thesis
  proof cases
    case lo
    then have "rint x = of_int \<lfloor>x\<rfloor>" by (simp add: rint_def d_def)
    then have "x - rint x = d" by (simp add: d_def)
    with lo d show ?thesis by simp
  next
    case hi
    then have "rint x = of_int \<lfloor>x\<rfloor> + 1" by (simp add: rint_def d_def)
    then have "x - rint x = d - 1" by (simp add: d_def)
    with hi d show ?thesis by simp
  next
    case tie
    then have "rint x = of_int \<lfloor>x\<rfloor> \<or> rint x = of_int \<lfloor>x\<rfloor> + 1"
      by (simp add: rint_def d_def Let_def)
    then have "x - rint x = d \<or> x - rint x = d - 1" by (auto simp: d_def)
    with tie show ?thesis by auto
  qed
qed

lemma periodic_row_in_cell: "list_all (\<lambda>x. - (1 / 2) \<le> x \<and> x \<le> 1 / 2) (periodic_row v)"
  using rint_diff_bounds by (simp add: periodic_row_def list_all_iff)

lemma closed_cell_periodic: "closed_cell (periodic a)"
  using periodic_row_in_cell by (simp add: closed_cell_def periodic_def list_all_iff)

lemma closed_cell_update:
  assumes "closed_cell a"
  shows "closed_cell (a[i := periodic_row v])"
proof -
  have "set (a[i := periodic_row v]) \<subseteq> insert (periodic_row v) (set a)"
    by (rule set_update_subset_insert)
  with assms periodic_row_in_cell [of v] show ?thesis
    by (auto simp: closed_cell_def list_all_iff)
qed

lemma atom_move_frame:
  assumes "atom_move env hs p i (s, moves) = Inr (s', moves')"
  shows "n s' = n s \<and> box s' = box s \<and> length (r s') = length (r s)
         \<and> m_ratio s' = m_ratio s \<and> v_ratio s' = v_ratio s \<and> trace s' = trace s
         \<and> (closed_cell (r s) \<longrightarrow> closed_cell (r s'))"
  using assms
  by (auto simp: atom_move_def Let_def raise_def closed_cell_update
      split: if_splits prod.splits)

lemma atoms_loop_frame:
  assumes "atoms_loop env hs p is (s, moves) = Inr (s', moves')"
  shows "n s' = n s \<and> box s' = box s \<and> length (r s') = length (r s)
         \<and> m_ratio s' = m_ratio s \<and> v_ratio s' = v_ratio s \<and> trace s' = trace s
         \<and> (closed_cell (r s) \<longrightarrow> closed_cell (r s'))"
  using assms
proof (induction "is" arbitrary: s moves)
  case Nil
  then show ?case by simp
next
  case (Cons i "is")
  from Cons.prems obtain s1 m1 where
    a: "atom_move env hs p i (s, moves) = Inr (s1, m1)" and
    l: "atoms_loop env hs p is (s1, m1) = Inr (s', moves')"
    by (auto split: sum.splits)
  from atom_move_frame [OF a] Cons.IH [OF l] show ?case by simp
qed

lemma calculate_frame:
  assumes "calculate string s = Inr (vars, s')"
  shows "n s' = n s \<and> box s' = box s \<and> r s' = r s"
  using assms
  by (auto simp: calculate_def Let_def raise_def emit_def
      split: if_splits option.splits)

lemma step_frame:
  assumes "step env hs p s = Inr s'"
  shows "n s' = n s \<and> length (r s') = length (r s)
         \<and> (closed_cell (r s) \<longrightarrow> closed_cell (r s'))
         \<and> (0 < box s \<longrightarrow> 0 < box s')"
proof -
  from assms obtain s1 moves where
    a: "atoms_loop env hs p [0 ..< nat (n s)] (s, 0) = Inr (s1, moves)"
    by (auto simp: step_def split: sum.splits)
  define s2 where "s2 = s1\<lparr>m_ratio := Some (real_of_int moves / real_of_int (n s1))\<rparr>"
  define s3 where "s3 = volume_move env hs p s2"
  from assms a obtain vars s4 where
    c: "calculate None s3 = Inr (vars, s4)" and e: "s' = emit (Blk_add vars) s4"
    by (auto simp: step_def Let_def raise_def s2_def s3_def split: sum.splits if_splits)
  have f2: "n s2 = n s1" "box s2 = box s1" "r s2 = r s1" by (simp_all add: s2_def)
  have f3: "n s3 = n s2" "r s3 = r s2"
    using volume_move_frame_aux [of env hs p s2] by (simp_all add: s3_def)
  have b3: "0 < box s2 \<longrightarrow> 0 < box s3"
    using volume_move_box_pos [of s2 env hs p] by (simp add: s3_def)
  have f5: "n s' = n s4" "box s' = box s4" "r s' = r s4" by (simp_all add: e emit_def)
  from atoms_loop_frame [OF a] calculate_frame [OF c] f2 f3 b3 f5
  show ?thesis by simp
qed

lemma steps_frame:
  assumes "steps env hs p k s = Inr s'"
  shows "n s' = n s \<and> length (r s') = length (r s)
         \<and> (closed_cell (r s) \<longrightarrow> closed_cell (r s'))
         \<and> (0 < box s \<longrightarrow> 0 < box s')"
  using assms
proof (induction k arbitrary: s)
  case 0
  then show ?case by simp
next
  case (Suc k)
  from Suc.prems obtain s1 where
    a: "step env hs p s = Inr s1" and l: "steps env hs p k s1 = Inr s'"
    by (auto split: sum.splits)
  from step_frame [OF a] Suc.IH [OF l] show ?case by simp
qed

lemma block_frame:
  assumes "block env hs p blk s = Inr s'"
  shows "n s' = n s \<and> length (r s') = length (r s)
         \<and> (closed_cell (r s) \<longrightarrow> closed_cell (r s'))
         \<and> (0 < box s \<longrightarrow> 0 < box s')"
proof -
  from assms obtain s1 where
    a: "steps env hs p (nat (nstep p)) (emit Blk_begin s) = Inr s1" and
    e: "s' = emit (Write_cnf_atoms (cnf_prefix @ sav_tag blk) (n s1) (box s1)
                (array_mul (r s1) (box s1))) (emit (Blk_end blk) s1)"
    by (auto simp: block_def split: sum.splits)
  from steps_frame [OF a] e show ?thesis by (simp add: emit_def)
qed

lemma blocks_frame:
  assumes "blocks env hs p blks s = Inr s'"
  shows "n s' = n s \<and> length (r s') = length (r s)
         \<and> (closed_cell (r s) \<longrightarrow> closed_cell (r s'))
         \<and> (0 < box s \<longrightarrow> 0 < box s')"
  using assms
proof (induction blks arbitrary: s)
  case Nil
  then show ?case by simp
next
  case (Cons blk blks)
  from Cons.prems obtain s1 where
    a: "block env hs p blk s = Inr s1" and l: "blocks env hs p blks s1 = Inr s'"
    by (auto split: sum.splits)
  from block_frame [OF a] Cons.IH [OF l] show ?case by simp
qed

lemma initialise_cell:
  assumes "initialise env nml t = Inr (p, hs, s)"
  shows "closed_cell (r s) \<and> box s \<noteq> 0"
proof -
  from assms obtain items where nml: "nml = JObj items"
    by (cases nml) (simp_all add: initialise_def)
  from assms nml obtain t1 where ck: "check_keys items t = Inr t1"
    by (auto simp: initialise_def split: sum.splits)
  from assms nml ck obtain p1 where sp: "set_params items = Some p1"
    by (auto simp: initialise_def split: option.splits)
  obtain n0 box0 r0 where rd: "read_cnf_atoms env (cnf_prefix @ inp_tag) = (n0, box0, r0)"
    by (cases "read_cnf_atoms env (cnf_prefix @ inp_tag)") 
  from assms nml ck sp rd have b: "box0 \<noteq> 0"
    by (auto simp: initialise_def startup_def Let_def split: if_splits)
  define s0 :: "'a globals" where
    "s0 = \<lparr>n = n0, box = box0, r = periodic (array_div r0 box0), m_ratio = None,
           v_ratio = None, gen = seed env,
           trace = (t1 @ [Introduction, Seed,
                     Print_int ''Number of blocks'' (nblock p1),
                     Print_int ''Number of steps per block'' (nstep p1),
                     Print_real ''Pressure'' (pressure p1),
                     Print_real ''Maximum displacement'' (dr_max p1),
                     Print_real ''Maximum box displacement'' (db_max p1)])
                   @ [Read_cnf_atoms (cnf_prefix @ inp_tag),
                      Print_int ''Number of particles'' n0,
                      Print_real ''Box length'' box0]\<rparr>"
  have s0: "r s0 = periodic (array_div r0 box0)" "box s0 = box0"
    by (simp_all add: s0_def)
  from assms nml ck sp rd b obtain vars s1 where
    c: "calculate (Some ''Initial values'') s0 = Inr (vars, s1)" and
    e: "s = emit (Run_begin vars) s1"
    by (auto simp: initialise_def startup_def Let_def raise_def s0_def
        split: if_splits sum.splits)
  from calculate_frame [OF c] s0 e b closed_cell_periodic show ?thesis
    by (simp add: emit_def)
qed

lemma finalise_frame:
  assumes "finalise hs s = Inr s'"
  shows "n s' = n s \<and> box s' = box s \<and> r s' = r s"
proof -
  from assms obtain vars s1 where
    c: "calculate (Some ''Final values'') (emit Run_end s) = Inr (vars, s1)"
    by (auto simp: finalise_def split: sum.splits)
  with assms have "n s' = n s1 \<and> box s' = box s1 \<and> r s' = r s1"
    by (auto simp: finalise_def raise_def emit_def split: if_splits)
  with calculate_frame [OF c] show ?thesis by (simp add: emit_def)
qed

lemma run_cell:
  assumes "run env nml t = Inr s"
  shows "closed_cell (r s)"
proof -
  from assms obtain p hs s0 where i: "initialise env nml t = Inr (p, hs, s0)"
    by (auto simp: run_def split: sum.splits)
  from assms i obtain s1 where b: "blocks env hs p [1 .. nblock p] s0 = Inr s1"
    by (auto simp: run_def split: sum.splits)
  from assms i b have f: "finalise hs s1 = Inr s"
    by (simp add: run_def)
  from initialise_cell [OF i] blocks_frame [OF b] finalise_frame [OF f]
  show ?thesis by simp
qed

lemma atom_move_returns:
  assumes "box s \<noteq> 0" "i < length (r s)"
  shows "\<exists>s' m'. atom_move env hs p i (s, m) = Inr (s', m')"
  using assms by (simp add: atom_move_def Let_def split: prod.splits)

lemma atoms_loop_returns:
  assumes "box s \<noteq> 0" "\<forall>i \<in> set is. i < length (r s)"
  shows "\<exists>s' m'. atoms_loop env hs p is (s, m) = Inr (s', m')"
  using assms
proof (induction "is" arbitrary: s m)
  case Nil
  then show ?case by simp
next
  case (Cons i "is")
  from Cons.prems atom_move_returns [of s i env hs p m] obtain s1 m1 where
    a: "atom_move env hs p i (s, m) = Inr (s1, m1)" by auto
  from atom_move_frame [OF a] Cons.prems have "box s1 \<noteq> 0" "\<forall>i \<in> set is. i < length (r s1)"
    by simp_all
  from Cons.IH [OF this] a show ?case by simp
qed

lemma volume_move_v_ratio: "v_ratio (volume_move env hs p s) \<noteq> None"
  by (simp add: volume_move_def Let_def emit_def split: prod.splits)

lemma step_returns:
  assumes "0 < box s" "0 < n s" "n s \<le> int (length (r s))"
  shows "\<exists>s'. step env hs p s = Inr s'"
proof -
  from assms have "box s \<noteq> 0" "\<forall>i \<in> set [0 ..< nat (n s)]. i < length (r s)" by auto
  from atoms_loop_returns [OF this] obtain s1 moves where
    a: "atoms_loop env hs p [0 ..< nat (n s)] (s, 0) = Inr (s1, moves)" by blast
  define s2 where "s2 = s1\<lparr>m_ratio := Some (real_of_int moves / real_of_int (n s1))\<rparr>"
  define s3 where "s3 = volume_move env hs p s2"
  from atoms_loop_frame [OF a] assms have n1: "n s1 \<noteq> 0" and b2: "0 < box s2"
    by (simp_all add: s2_def)
  have m3: "m_ratio s3 \<noteq> None"
    using volume_move_frame_aux [of env hs p s2] by (simp add: s3_def s2_def)
  have v3: "v_ratio s3 \<noteq> None" by (simp add: s3_def volume_move_v_ratio)
  have b3: "box s3 \<noteq> 0" using volume_move_box_pos [OF b2, of env hs p] by (simp add: s3_def)
  from m3 v3 b3 obtain vars s4 where c: "calculate None s3 = Inr (vars, s4)"
    by (auto simp: calculate_def Let_def)
  from a n1 c show ?thesis
    by (simp add: step_def Let_def s2_def [symmetric] s3_def [symmetric])
qed

text \<open>The example environment at work.\<close>

lemmas ex_defs = example_env_def example_hs_def hs_overlap_1_def periodic_row_def periodic_def rint_def
  array_div_def array_mul_def example_params_def example_globals_def

lemma ex_step:
  "step (example_env []) example_hs (example_params 0)
     (example_globals [1 / 2, 1, 1 / 2, 1 / 2, 1 / 2, 1, 1, 3])
   = Inr \<lparr>n = 2, box = 2 * exp 1, r = [[1 / 2, 1 / 20, 0], [0, 0, 1 / 20]],
           m_ratio = Some 1, v_ratio = Some 1, gen = [3],
           trace = [Metropolis (- 9),
                    Blk_add [\<lparr>nam = ''Move ratio'', val = 1\<rparr>,
                             \<lparr>nam = ''Volume ratio'', val = 1\<rparr>,
                             \<lparr>nam = ''Density'', val = 1 / (4 * exp 1 ^ 3)\<rparr>]]\<rparr>"
proof -
  have "(1::real) \<le> exp 2" by simp
  then have "\<not> 51 * exp 2 < (50::real)" by linarith
  then show ?thesis
    by (simp add: step_def atom_move_def upt_conv_Cons Let_def ex_defs np_delete_def
        volume_move_def box_scale_of_def delta_of_def calculate_def emit_def raise_def
        mult_exp_exp ln_div ln_realpow)
qed

lemma ex_block:
  "map_sum fst box (block (example_env []) example_hs (example_params 0) b
     (example_globals [1 / 2, 1, 1 / 2, 1 / 2, 1 / 2, 1, 1, 3])) = Inr (2 * exp 1)"
proof -
  have "(1::real) \<le> exp 2" by simp
  then have "\<not> 51 * exp 2 < (50::real)" by linarith
  then show ?thesis
    by (simp add: block_def step_def atom_move_def upt_conv_Cons Let_def ex_defs np_delete_def
        volume_move_def box_scale_of_def delta_of_def calculate_def emit_def raise_def
        mult_exp_exp ln_div ln_realpow)
qed

lemma ex_atom_move:
  "atom_move (example_env []) example_hs (example_params P) 0
      (example_globals (1 / 2 # 1 # 1 / 2 # g), 0)
     = Inr ((example_globals g)\<lparr>r := [[1 / 2, 1 / 20, 0], [0, 0, 0]]\<rparr>, 1)"
  by (simp add: atom_move_def Let_def ex_defs np_delete_def)

lemma ex_initialise:
  "initialise (example_env g0) (JObj [(''nblock'', JInt 1), (''nstep'', JInt 1)]) []
   = Inr (\<lparr>nblock = 1, nstep = 1, dr_max = 3 / 20, db_max = 1 / 200, pressure = 4,
            fast = True\<rparr>,
          example_hs,
          \<lparr>n = 2, box = 2, r = [[1 / 2, 0, 0], [0, 0, 0]], m_ratio = None,
            v_ratio = None, gen = g0,
            trace =
              [Introduction, Seed, Print_int ''Number of blocks'' 1,
               Print_int ''Number of steps per block'' 1,
               Print_real ''Pressure'' 4,
               Print_real ''Maximum displacement'' (3 / 20),
               Print_real ''Maximum box displacement'' (1 / 200),
               Read_cnf_atoms ''cnf.inp'',
               Print_int ''Number of particles'' 2,
               Print_real ''Box length'' 2, Print ''Initial values'',
               Write_variables [\<lparr>nam = ''Density'', val = 1 / 4\<rparr>],
               Run_begin
                [\<lparr>nam = ''Move ratio'', val = 0\<rparr>,
                 \<lparr>nam = ''Volume ratio'', val = 0\<rparr>,
                 \<lparr>nam = ''Density'', val = 1 / 4\<rparr>]]\<rparr>)"
  by (simp add: initialise_def startup_def set_params_def int_setting_def float_setting_def
      bool_setting_def setting_def defaults_def ex_defs cnf_prefix_def inp_tag_def
      calculate_def emit_def raise_def Let_def)

lemma ex_run:
  "map_sum fst r
     (run (example_env [1 / 2, 1, 1 / 2, 1 / 2, 1 / 2, 1, 1 / 2, 3])
        (JObj [(''nblock'', JInt 1), (''nstep'', JInt 1)]) [])
   = Inr [[1 / 2, 3 / 40, 0], [0, 0, 3 / 40]]"
  by (simp add: run_def initialise_def startup_def set_params_def int_setting_def
      float_setting_def
      bool_setting_def setting_def defaults_def ex_defs cnf_prefix_def inp_tag_def out_tag_def
      calculate_def emit_def raise_def Let_def block_def finalise_def
      step_def atom_move_def upt_conv_Cons np_delete_def
      volume_move_def box_scale_of_def delta_of_def sav_tag_def)

text \<open>
  C4, as stated: after the initial read and after every update of a position by a
  translation move, every component of every stored position lies in \<open>[-1/2, 1/2)\<close>. This
  fails: \<^verbatim>\<open>np.rint\<close> rounds a tie to the even neighbour, so a component \<open>1/2\<close> is wrapped to
  \<open>1/2 - 0 = 1/2\<close>. A sphere read in at \<open>x = 1\<close> in a box of length 2 is stored at \<open>1/2\<close>,
  and a trial position with a component \<open>1/2\<close> is stored as it is.
\<close>

theorem positions_half_open_counterexample:
  "map_sum fst (r \<circ> snd \<circ> snd)
     (initialise (example_env []) (JObj [(''nblock'', JInt 1), (''nstep'', JInt 1)]) [])
     = Inr [[1 / 2, 0, 0], [0, 0, 0]]
   \<and> \<not> half_open_cell [[1 / 2, 0, 0], [0, 0, 0]]
   \<and> map_sum fst (r \<circ> fst)
       (atom_move (example_env []) example_hs (example_params 4) 0
          (example_globals [1 / 2, 1, 1 / 2], 0))
     = Inr [[1 / 2, 1 / 20, 0], [0, 0, 0]]
   \<and> \<not> half_open_cell [[1 / 2, 1 / 20, 0], [0, 0, 0]]"
  by (simp add: ex_initialise ex_atom_move half_open_cell_def)

text \<open>
  C4, amended: after the initial read, after every trial move of an atom, after every
  step and at the end of the run, every component of every stored position lies in the
  closed interval \<open>[-1/2, 1/2]\<close>.
\<close>

theorem positions_in_closed_cell:
  "(initialise env nml t = Inr (p0, hs0, s0) \<longrightarrow> closed_cell (r s0))
   \<and> (closed_cell (r s) \<and> atom_move env hs p i (s, moves) = Inr (s1, moves1)
        \<longrightarrow> closed_cell (r s1))
   \<and> (closed_cell (r s) \<and> step env hs p s = Inr s2 \<longrightarrow> closed_cell (r s2))
   \<and> (run env nml t = Inr s3 \<longrightarrow> closed_cell (r s3))"
proof -
  have "closed_cell (r s0)" if "initialise env nml t = Inr (p0, hs0, s0)"
    using initialise_cell [OF that] by simp
  moreover have "closed_cell (r s1)"
    if "closed_cell (r s)" "atom_move env hs p i (s, moves) = Inr (s1, moves1)"
    using atom_move_frame [OF that(2)] that(1) by simp
  moreover have "closed_cell (r s2)" if "closed_cell (r s)" "step env hs p s = Inr s2"
    using step_frame [OF that(2)] that(1) by simp
  moreover have "closed_cell (r s3)" if "run env nml t = Inr s3"
    using run_cell [OF that] .
  ultimately show ?thesis by blast
qed

theorem positions_in_closed_cell_witness:
  "closed_cell [[1 / 2, 0, 0], [0, 0, 0]]
   \<and> closed_cell [[1 / 2, 1 / 20, 0], [0, 0, 0]]
   \<and> closed_cell [[1 / 2, 1 / 20, 0], [0, 0, 1 / 20]]
   \<and> closed_cell [[1 / 2, 3 / 40, 0], [0, 0, 3 / 40]]
   \<and> map_sum fst (r \<circ> snd \<circ> snd)
       (initialise (example_env []) (JObj [(''nblock'', JInt 1), (''nstep'', JInt 1)]) [])
     = Inr [[1 / 2, 0, 0], [0, 0, 0]]
   \<and> map_sum fst (r \<circ> fst)
       (atom_move (example_env []) example_hs (example_params 0) 0
          (example_globals [1 / 2, 1, 1 / 2, 1 / 2, 1 / 2, 1, 1, 3], 0))
     = Inr [[1 / 2, 1 / 20, 0], [0, 0, 0]]
   \<and> map_sum fst r
       (step (example_env []) example_hs (example_params 0)
          (example_globals [1 / 2, 1, 1 / 2, 1 / 2, 1 / 2, 1, 1, 3]))
     = Inr [[1 / 2, 1 / 20, 0], [0, 0, 1 / 20]]
   \<and> map_sum fst r
       (run (example_env [1 / 2, 1, 1 / 2, 1 / 2, 1 / 2, 1, 1 / 2, 3])
          (JObj [(''nblock'', JInt 1), (''nstep'', JInt 1)]) [])
     = Inr [[1 / 2, 3 / 40, 0], [0, 0, 3 / 40]]"
proof -
  obtain s3 where
    run: "run (example_env [1 / 2, 1, 1 / 2, 1 / 2, 1 / 2, 1, 1 / 2, 3])
            (JObj [(''nblock'', JInt 1), (''nstep'', JInt 1)]) [] = Inr s3"
    and r3: "r s3 = [[1 / 2, 3 / 40, 0], [0, 0, 3 / 40]]"
    using ex_run
    by (cases "run (example_env [1 / 2, 1, 1 / 2, 1 / 2, 1 / 2, 1, 1 / 2, 3])
            (JObj [(''nblock'', JInt 1), (''nstep'', JInt 1)]) []") auto
  have c0: "closed_cell (r (example_globals [1 / 2, 1, 1 / 2, 1 / 2, 1 / 2, 1, 1, 3]))"
    by (simp add: closed_cell_def example_globals_def)
  from positions_in_closed_cell
         [THEN conjunct1, rule_format, OF ex_initialise]
  have w1: "closed_cell [[1 / 2, 0, 0], [0, 0, 0]]" by simp
  from positions_in_closed_cell
         [THEN conjunct2, THEN conjunct1, rule_format, OF conjI, OF c0 ex_atom_move]
  have w2: "closed_cell [[1 / 2, 1 / 20, 0], [0, 0, 0]]"
    by (simp add: example_globals_def)
  from positions_in_closed_cell
         [THEN conjunct2, THEN conjunct2, THEN conjunct1, rule_format, OF conjI, OF c0 ex_step]
  have w3: "closed_cell [[1 / 2, 1 / 20, 0], [0, 0, 1 / 20]]" by simp
  from positions_in_closed_cell
         [THEN conjunct2, THEN conjunct2, THEN conjunct2, rule_format, OF run] r3
  have w4: "closed_cell [[1 / 2, 3 / 40, 0], [0, 0, 3 / 40]]" by simp
  from w1 w2 w3 w4 ex_initialise ex_atom_move ex_step ex_run show ?thesis
    by (simp add: example_globals_def)
qed

text \<open>
  C10. A step that starts with a positive box length ends with a positive box length, so
  that the volume \<open>box\<^sup>3\<close> and, for \<open>n > 0\<close>, the density \<open>n / box\<^sup>3\<close> are positive; it leaves
  \<open>n\<close> as it was. The loop over the atoms does not change the box length, the volume move
  keeps it or multiplies it by \<open>exp (zeta * db_max)\<close>, and the same holds over any number of
  blocks. With a positive box length and \<open>0 < n \<le>\<close> the number of rows of \<open>r\<close>, a step raises
  no exception.
\<close>

theorem box_stays_positive:
  "(0 < box s \<and> step env hs p s = Inr s1 \<longrightarrow>
      0 < box s1 \<and> 0 < box s1 ^ 3 \<and> n s1 = n s
      \<and> (0 < n s \<longrightarrow> 0 < real_of_int (n s1) / box s1 ^ 3))
   \<and> (0 < box s \<and> atoms_loop env hs p ixs (s, moves) = Inr (s2, moves2) \<longrightarrow> box s2 = box s)
   \<and> (0 < box s \<longrightarrow>
        box (volume_move env hs p s) = box s
        \<or> box (volume_move env hs p s)
             = box s * exp ((2 * fst (rand env (gen s)) - 1) * db_max p))
   \<and> (0 < box s \<and> blocks env hs p blks s = Inr s3 \<longrightarrow> 0 < box s3 \<and> n s3 = n s)
   \<and> (0 < box s \<and> 0 < n s \<and> n s \<le> int (length (r s)) \<longrightarrow> (\<exists>s'. step env hs p s = Inr s'))"
proof -
  have "0 < box s1 \<and> 0 < box s1 ^ 3 \<and> n s1 = n s
        \<and> (0 < n s \<longrightarrow> 0 < real_of_int (n s1) / box s1 ^ 3)"
    if "0 < box s" "step env hs p s = Inr s1"
    using step_frame [OF that(2)] that(1) by simp
  moreover have "box s2 = box s" if "atoms_loop env hs p ixs (s, moves) = Inr (s2, moves2)"
    using atoms_loop_frame [OF that] by simp
  moreover have "box (volume_move env hs p s) = box s
        \<or> box (volume_move env hs p s)
             = box s * exp ((2 * fst (rand env (gen s)) - 1) * db_max p)"
    by (simp add: volume_move_def Let_def emit_def box_scale_of_def split: prod.splits)
  moreover have "0 < box s3 \<and> n s3 = n s" if "0 < box s" "blocks env hs p blks s = Inr s3"
    using blocks_frame [OF that(2)] that(1) by simp
  moreover have "\<exists>s'. step env hs p s = Inr s'"
    if "0 < box s" "0 < n s" "n s \<le> int (length (r s))"
    using step_returns [OF that] .
  ultimately show ?thesis by blast
qed

theorem box_stays_positive_witness:
  "((0::real) < 2 * exp 1 \<and> (0::real) < (2 * exp 1) ^ 3 \<and> (0::real) < 2 / (2 * exp 1) ^ 3)
   \<and> (0 < box (example_globals [1 / 2, 1, 1 / 2, 1 / 2, 1 / 2, 1, 1, 3])
      \<and> map_sum fst box
          (step (example_env []) example_hs (example_params 0)
             (example_globals [1 / 2, 1, 1 / 2, 1 / 2, 1 / 2, 1, 1, 3])) = Inr (2 * exp 1)
      \<and> map_sum fst box
          (block (example_env []) example_hs (example_params 0) 1
             (example_globals [1 / 2, 1, 1 / 2, 1 / 2, 1 / 2, 1, 1, 3])) = Inr (2 * exp 1))"
proof -
  let ?s = "example_globals [1 / 2, 1, 1 / 2, 1 / 2, 1 / 2, 1, 1, 3] :: real list globals"
  have b0: "0 < box ?s" by (simp add: example_globals_def)
  have n0: "0 < n ?s" by (simp add: example_globals_def)
  from box_stays_positive [THEN conjunct1, rule_format, OF conjI, OF b0 ex_step] n0
  have w1: "(0::real) < 2 * exp 1 \<and> (0::real) < (2 * exp 1) ^ 3
            \<and> (0::real) < 2 / (2 * exp 1) ^ 3"
    by simp
  from b0 ex_step ex_block
  have w2: "0 < box ?s
      \<and> map_sum fst box (step (example_env []) example_hs (example_params 0) ?s)
          = Inr (2 * exp 1)
      \<and> map_sum fst box (block (example_env []) example_hs (example_params 0) 1 ?s)
          = Inr (2 * exp 1)"
    by simp
  from w1 w2 show ?thesis by (rule conjI)
qed

subsection \<open>The run parameters\<close>

lemma check_keys_wrong_type:
  assumes "find wrong_type items = Some (key, v)"
  shows "check_keys items t =
           Inl (AssertionError (key @ '' has the wrong type''),
                t @ warnings (takeWhile (\<lambda>item. \<not> wrong_type item) items))"
  using assms
proof (induction items arbitrary: t)
  case Nil
  then show ?case by simp
next
  case (Cons item items)
  obtain k w where item: "item = (k, w)" by (cases item)
  show ?case
  proof (cases "wrong_type item")
    case True
    with Cons.prems item show ?thesis
      by (auto simp: wrong_type_def warnings_def split: option.splits)
  next
    case False
    with Cons.prems have "find wrong_type items = Some (key, v)" by simp
    from Cons.IH [OF this] False item show ?thesis
      by (auto simp: wrong_type_def warnings_def recognized_def split: option.splits)
  qed
qed

lemma check_keys_no_wrong_type:
  assumes "find wrong_type items = None"
  shows "check_keys items t = Inr (t @ warnings items)"
  using assms
proof (induction items arbitrary: t)
  case Nil
  then show ?case by (simp add: warnings_def)
next
  case (Cons item items)
  obtain k w where item: "item = (k, w)" by (cases item)
  from Cons.prems have nw: "\<not> wrong_type item" and rest: "find wrong_type items = None"
    by (auto split: if_splits)
  from Cons.IH [OF rest] nw item show ?case
    by (auto simp: wrong_type_def warnings_def recognized_def split: option.splits)
qed

lemma typed_setting:
  assumes "find wrong_type items = None" and "map_of defaults key = Some d"
  shows "\<exists>v. setting items key = Some v \<and> type_of v = type_of d"
proof (cases "map_of items key")
  case None
  with assms(2) show ?thesis by (simp add: setting_def)
next
  case (Some v)
  then have "(key, v) \<in> set items" by (rule map_of_SomeD)
  with assms(1) have "\<not> wrong_type (key, v)" by (auto simp: find_None_iff)
  with assms(2) Some show ?thesis by (simp add: wrong_type_def setting_def)
qed

lemma int_setting_ok:
  assumes "find wrong_type items = None" and "map_of defaults key = Some (JInt k)"
  shows "\<exists>i. int_setting items key = Some i"
proof -
  from typed_setting [OF assms] obtain v where
    v: "setting items key = Some v" "type_of v = Py_int" by auto
  then show ?thesis by (cases v) (simp_all add: int_setting_def)
qed

lemma float_setting_ok:
  assumes "find wrong_type items = None" and "map_of defaults key = Some (JFloat x)"
  shows "\<exists>y. float_setting items key = Some y"
proof -
  from typed_setting [OF assms] obtain v where
    v: "setting items key = Some v" "type_of v = Py_float" by auto
  then show ?thesis by (cases v) (simp_all add: float_setting_def)
qed

lemma bool_setting_ok:
  assumes "find wrong_type items = None" and "map_of defaults key = Some (JBool b)"
  shows "\<exists>c. bool_setting items key = Some c"
proof -
  from typed_setting [OF assms] obtain v where
    v: "setting items key = Some v" "type_of v = Py_bool" by auto
  then show ?thesis by (cases v) (simp_all add: bool_setting_def)
qed

lemma set_params_after_check:
  assumes "find wrong_type items = None"
  shows "\<exists>p. set_params items = Some p"
proof -
  from int_setting_ok [OF assms, of "''nblock''" 10] obtain nb where
    "int_setting items ''nblock'' = Some nb" by (auto simp: defaults_def)
  moreover from int_setting_ok [OF assms, of "''nstep''" 1000] obtain ns where
    "int_setting items ''nstep'' = Some ns" by (auto simp: defaults_def)
  moreover from float_setting_ok [OF assms, of "''dr_max''" "15 / 100"] obtain dr where
    "float_setting items ''dr_max'' = Some dr" by (auto simp: defaults_def)
  moreover from float_setting_ok [OF assms, of "''db_max''" "5 / 1000"] obtain db where
    "float_setting items ''db_max'' = Some db" by (auto simp: defaults_def)
  moreover from float_setting_ok [OF assms, of "''pressure''" 4] obtain pr where
    "float_setting items ''pressure'' = Some pr" by (auto simp: defaults_def)
  moreover from bool_setting_ok [OF assms, of "''fast''" True] obtain f where
    "bool_setting items ''fast'' = Some f" by (auto simp: defaults_def)
  ultimately show ?thesis by (simp add: set_params_def)
qed

lemma main_wrong_type:
  assumes "find wrong_type items = Some (key, v)"
  shows "main env (Some (JObj items)) =
           (Uncaught (AssertionError (key @ '' has the wrong type'')),
            [Print ''mc_npt_hs'', Print ''Monte Carlo, constant-NPT ensemble'']
              @ warnings (takeWhile (\<lambda>item. \<not> wrong_type item) items),
            None)"
  by (simp add: main_def run_def initialise_def check_keys_wrong_type [OF assms])

lemma initialise_no_wrong_type:
  assumes "find wrong_type items = None"
  shows "\<exists>p. set_params items = Some p
             \<and> initialise env (JObj items) t = startup env p (t @ warnings items)"
proof -
  from set_params_after_check [OF assms] obtain p where "set_params items = Some p" ..
  then show ?thesis
    by (simp add: initialise_def check_keys_no_wrong_type [OF assms])
qed

lemma find_wrong_type_Some:
  assumes "find wrong_type items = Some (key, v)"
  shows "(key, v) \<in> set items \<and> recognized key \<and> wrong_type (key, v)"
proof -
  from assms have w: "wrong_type (key, v)" and m: "(key, v) \<in> set items"
    by (auto simp: find_Some_iff)
  from w have "recognized key"
    by (auto simp: wrong_type_def recognized_def split: option.splits)
  with w m show ?thesis by simp
qed

lemma ex_find_wrong_type:
  "find wrong_type [(''foo'', JInt 3), (''nblock'', JFloat 3)] = Some (''nblock'', JFloat 3)"
  by (simp add: wrong_type_def defaults_def)

lemma ex_find_no_wrong_type:
  "find wrong_type [(''foo'', JInt 3), (''nblock'', JInt 1), (''nstep'', JInt 1)] = None"
  by (simp add: wrong_type_def defaults_def)

text \<open>
  C6, as stated: on input that is not valid JSON the process reports the error, exits
  before any simulation state is built, and ends with a nonzero exit status. The last
  part fails: the handler of line 82 prints the message and calls \<^verbatim>\<open>sys.exit()\<close> without
  an argument, which is the exit status 0.
\<close>

theorem main_invalid_json_counterexample:
  "\<not> exit_status (fst (main (example_env []) None)) \<noteq> 0"
  by (simp add: main_def)

text \<open>
  C6, amended: on input that is not valid JSON the process prints its two header lines
  and \<open>Exiting on Invalid JSON format\<close> and exits at once: nothing is read, no
  configuration is built, nothing is written; the exit status is 0.
\<close>

theorem main_invalid_json:
  "main env None =
     (SystemExit,
      [Print ''mc_npt_hs'', Print ''Monte Carlo, constant-NPT ensemble'',
       Print ''Exiting on Invalid JSON format''],
      None)
   \<and> exit_status (fst (main env None)) = 0"
  by (simp add: main_def)

text \<open>
  C7. If a supplied key is in \<^verbatim>\<open>defaults\<close> and its value has another type than the
  default, the run aborts with an \<^verbatim>\<open>AssertionError\<close> that names the first such key in the
  order of the input (exit status 1, after the warnings for the unknown keys before it).
  A key that is not in \<^verbatim>\<open>defaults\<close> only adds a warning and the check goes on with the
  next key; when no supplied key has a wrong type, the check ends with one warning for
  each unknown key, the parameters are set and the program goes on to read the
  configuration.
\<close>

theorem check_keys_types_and_unknown_keys:
  "(find wrong_type items = Some (key, v) \<longrightarrow>
      (key, v) \<in> set items \<and> recognized key \<and> wrong_type (key, v)
      \<and> main env (Some (JObj items))
          = (Uncaught (AssertionError (key @ '' has the wrong type'')),
             [Print ''mc_npt_hs'', Print ''Monte Carlo, constant-NPT ensemble'']
               @ warnings (takeWhile (\<lambda>item. \<not> wrong_type item) items),
             None)
      \<and> exit_status (fst (main env (Some (JObj items)))) = 1)
   \<and> ((k, w) \<in> set items \<and> wrong_type (k, w) \<longrightarrow>
        (\<exists>key v. find wrong_type items = Some (key, v)))
   \<and> (\<not> recognized k \<longrightarrow>
        check_keys ((k, w) # items) t = check_keys items (t @ [Warning k]))
   \<and> (find wrong_type items = None \<longrightarrow>
        check_keys items t = Inr (t @ warnings items)
        \<and> (\<exists>p. set_params items = Some p
                 \<and> initialise env (JObj items) t = startup env p (t @ warnings items)))"
proof -
  have "(key, v) \<in> set items \<and> recognized key \<and> wrong_type (key, v)
      \<and> main env (Some (JObj items))
          = (Uncaught (AssertionError (key @ '' has the wrong type'')),
             [Print ''mc_npt_hs'', Print ''Monte Carlo, constant-NPT ensemble'']
               @ warnings (takeWhile (\<lambda>item. \<not> wrong_type item) items),
             None)
      \<and> exit_status (fst (main env (Some (JObj items)))) = 1"
    if "find wrong_type items = Some (key, v)"
    using find_wrong_type_Some [OF that] main_wrong_type [OF that, of env] by simp
  moreover have "\<exists>key v. find wrong_type items = Some (key, v)"
    if "(k, w) \<in> set items" "wrong_type (k, w)"
  proof (cases "find wrong_type items")
    case None
    with that show ?thesis by (auto simp: find_None_iff)
  next
    case (Some item)
    then show ?thesis by (cases item) simp
  qed
  moreover have "check_keys ((k, w) # items) t = check_keys items (t @ [Warning k])"
    if "\<not> recognized k"
    using that by (simp add: recognized_def)
  moreover have "check_keys items t = Inr (t @ warnings items)
        \<and> (\<exists>p. set_params items = Some p
                 \<and> initialise env (JObj items) t = startup env p (t @ warnings items))"
    if "find wrong_type items = None"
    using check_keys_no_wrong_type [OF that] initialise_no_wrong_type [OF that] by simp
  ultimately show ?thesis by blast
qed

theorem check_keys_types_and_unknown_keys_witness:
  "main (example_env []) (Some (JObj [(''foo'', JInt 3), (''nblock'', JFloat 3)]))
     = (Uncaught (AssertionError ''nblock has the wrong type''),
        [Print ''mc_npt_hs'', Print ''Monte Carlo, constant-NPT ensemble'', Warning ''foo''],
        None)
   \<and> check_keys [(''foo'', JInt 3), (''nblock'', JInt 1), (''nstep'', JInt 1)] []
     = Inr [Warning ''foo'']"
proof -
  have nr: "\<not> recognized ''foo''" by (simp add: recognized_def defaults_def)
  from check_keys_types_and_unknown_keys
         [THEN conjunct1, rule_format, OF ex_find_wrong_type, of "example_env []"]
  have w1: "main (example_env []) (Some (JObj [(''foo'', JInt 3), (''nblock'', JFloat 3)]))
     = (Uncaught (AssertionError ''nblock has the wrong type''),
        [Print ''mc_npt_hs'', Print ''Monte Carlo, constant-NPT ensemble'', Warning ''foo''],
        None)"
    by (simp add: warnings_def wrong_type_def recognized_def defaults_def)
  from check_keys_types_and_unknown_keys
         [THEN conjunct2, THEN conjunct2, THEN conjunct2, rule_format,
          OF ex_find_no_wrong_type, of "[]"]
  have w2: "check_keys [(''foo'', JInt 3), (''nblock'', JInt 1), (''nstep'', JInt 1)] []
     = Inr [Warning ''foo'']"
    by (simp add: warnings_def recognized_def defaults_def)
  from w1 w2 show ?thesis by (rule conjI)
qed

subsection \<open>The snapshot of a block\<close>

lemma snapshot_names_append:
  "snapshot_names (es @ fs) = snapshot_names es @ snapshot_names fs"
  by (induction es rule: snapshot_names.induct) simp_all

lemma calculate_None_same:
  assumes "calculate None s = Inr (vars, s')"
  shows "s' = s"
  using assms
  by (auto simp: calculate_def Let_def raise_def split: if_splits option.splits)

lemma volume_move_snapshot_names:
  "snapshot_names (trace (volume_move env hs p s)) = snapshot_names (trace s)"
  by (simp add: volume_move_def Let_def emit_def snapshot_names_append split: prod.splits)

lemma step_snapshot_names:
  assumes "step env hs p s = Inr s'"
  shows "snapshot_names (trace s') = snapshot_names (trace s)"
proof -
  from assms obtain s1 moves where
    a: "atoms_loop env hs p [0 ..< nat (n s)] (s, 0) = Inr (s1, moves)"
    by (auto simp: step_def split: sum.splits)
  define s2 where "s2 = s1\<lparr>m_ratio := Some (real_of_int moves / real_of_int (n s1))\<rparr>"
  define s3 where "s3 = volume_move env hs p s2"
  from assms a obtain vars s4 where
    c: "calculate None s3 = Inr (vars, s4)" and e: "s' = emit (Blk_add vars) s4"
    by (auto simp: step_def Let_def raise_def s2_def s3_def split: sum.splits if_splits)
  have "trace s2 = trace s" using atoms_loop_frame [OF a] by (simp add: s2_def)
  moreover have "snapshot_names (trace s3) = snapshot_names (trace s2)"
    by (simp add: s3_def volume_move_snapshot_names)
  moreover have "s4 = s3" using calculate_None_same [OF c] .
  ultimately show ?thesis by (simp add: e emit_def snapshot_names_append)
qed

lemma steps_snapshot_names:
  assumes "steps env hs p k s = Inr s'"
  shows "snapshot_names (trace s') = snapshot_names (trace s)"
  using assms
proof (induction k arbitrary: s)
  case 0
  then show ?case by simp
next
  case (Suc k)
  from Suc.prems obtain s1 where
    a: "step env hs p s = Inr s1" and l: "steps env hs p k s1 = Inr s'"
    by (auto split: sum.splits)
  from step_snapshot_names [OF a] Suc.IH [OF l] show ?case by simp
qed

lemma block_writes_snapshot:
  assumes "block env hs p blk s = Inr s'"
  shows "last (trace s') = Write_cnf_atoms (cnf_prefix @ sav_tag blk) (n s') (box s')
                             (array_mul (r s') (box s'))
         \<and> snapshot_names (trace s') = snapshot_names (trace s) @ [cnf_prefix @ sav_tag blk]"
proof -
  from assms obtain s1 where
    a: "steps env hs p (nat (nstep p)) (emit Blk_begin s) = Inr s1" and
    e: "s' = emit (Write_cnf_atoms (cnf_prefix @ sav_tag blk) (n s1) (box s1)
                (array_mul (r s1) (box s1))) (emit (Blk_end blk) s1)"
    by (auto simp: block_def split: sum.splits)
  from steps_snapshot_names [OF a]
  have "snapshot_names (trace s1) = snapshot_names (trace s)"
    by (simp add: emit_def snapshot_names_append)
  with e show ?thesis by (simp add: emit_def snapshot_names_append)
qed

text \<open>
  C9. A block that runs to its end writes one snapshot, as its last action, under the
  name \<open>cnf.\<close> followed by the tag of its number \<open>b\<close> (blocks are numbered from 1): the three
  decimal digits of \<open>b\<close>, zero-padded, as long as \<open>b \<le> 999\<close>, and the one tag \<open>sav\<close> for every
  block from 1000 on, so that all of those write the file \<open>cnf.sav\<close>.
\<close>

theorem sav_tag_capped:
  "(1 \<le> b \<and> b \<le> 999 \<longrightarrow>
      sav_tag b = [digit_char (nat b div 100), digit_char (nat b div 10 mod 10),
                   digit_char (nat b mod 10)]
      \<and> length (sav_tag b) = 3)
   \<and> (1000 \<le> b \<longrightarrow> sav_tag b = ''sav'' \<and> cnf_prefix @ sav_tag b = ''cnf.sav'')
   \<and> (block env hs p b s = Inr s' \<longrightarrow>
        last (trace s') = Write_cnf_atoms (cnf_prefix @ sav_tag b) (n s') (box s')
                            (array_mul (r s') (box s'))
        \<and> snapshot_names (trace s') = snapshot_names (trace s) @ [cnf_prefix @ sav_tag b])
   \<and> (1 \<le> b \<and> b \<le> 999 \<and> block env hs p b s = Inr s' \<longrightarrow>
        snapshot_names (trace s') =
          snapshot_names (trace s) @
            [''cnf.'' @ [digit_char (nat b div 100), digit_char (nat b div 10 mod 10),
                         digit_char (nat b mod 10)]])
   \<and> (1000 \<le> b \<and> block env hs p b s = Inr s' \<longrightarrow>
        snapshot_names (trace s') = snapshot_names (trace s) @ [''cnf.sav''])"
proof -
  have tag: "sav_tag b = [digit_char (nat b div 100), digit_char (nat b div 10 mod 10),
                     digit_char (nat b mod 10)]" if "1 \<le> b" "b \<le> 999"
  proof -
    from that have "nat b < 1000" by simp
    then have "zfill 3 (str_nat (nat b)) =
        [digit_char (nat b div 100), digit_char (nat b div 10 mod 10), digit_char (nat b mod 10)]"
      by (rule zfill_str_nat_below_1000)
    with that show ?thesis by (simp add: sav_tag_def str_def)
  qed
  have cap: "sav_tag b = ''sav''" if "1000 \<le> b"
    using that by (simp add: sav_tag_def)
  have blk: "last (trace s') = Write_cnf_atoms (cnf_prefix @ sav_tag b) (n s') (box s')
                            (array_mul (r s') (box s'))
        \<and> snapshot_names (trace s') = snapshot_names (trace s) @ [cnf_prefix @ sav_tag b]"
    if "block env hs p b s = Inr s'"
    using block_writes_snapshot [OF that] .
  have "snapshot_names (trace s') =
          snapshot_names (trace s) @
            [''cnf.'' @ [digit_char (nat b div 100), digit_char (nat b div 10 mod 10),
                         digit_char (nat b mod 10)]]"
    if "1 \<le> b" "b \<le> 999" "block env hs p b s = Inr s'"
    using blk [OF that(3)] tag [OF that(1,2)] by (simp add: cnf_prefix_def)
  moreover have "snapshot_names (trace s') = snapshot_names (trace s) @ [''cnf.sav'']"
    if "1000 \<le> b" "block env hs p b s = Inr s'"
    using blk [OF that(2)] cap [OF that(1)] by (simp add: cnf_prefix_def)
  moreover have "length (sav_tag b) = 3" if "1 \<le> b" "b \<le> 999"
    using tag [OF that] by simp
  moreover have "cnf_prefix @ sav_tag b = ''cnf.sav''" if "1000 \<le> b"
    using cap [OF that] by (simp add: cnf_prefix_def)
  ultimately show ?thesis using tag cap blk by blast
qed

theorem sav_tag_capped_witness:
  "(sav_tag 7 = ''007'' \<and> sav_tag 42 = ''042'' \<and> sav_tag 999 = ''999''
    \<and> sav_tag 1000 = ''sav'' \<and> sav_tag 123456 = ''sav''
    \<and> cnf_prefix @ sav_tag 1000 = cnf_prefix @ sav_tag 123456)
   \<and> (map_sum fst (snapshot_names \<circ> trace)
        (block (example_env []) example_hs (example_params 0) 7
           (example_globals [1 / 2, 1, 1 / 2, 1 / 2, 1 / 2, 1, 1, 3])) = Inr [''cnf.007'']
    \<and> map_sum fst (snapshot_names \<circ> trace)
        (block (example_env []) example_hs (example_params 0) 1000
           (example_globals [1 / 2, 1, 1 / 2, 1 / 2, 1 / 2, 1, 1, 3])) = Inr [''cnf.sav''])"
proof -
  let ?s = "example_globals [1 / 2, 1, 1 / 2, 1 / 2, 1 / 2, 1, 1, 3] :: real list globals"
  have t0: "snapshot_names (trace ?s) = []" by (simp add: example_globals_def)
  from sav_tag_capped [of 7, THEN conjunct1] sav_tag_capped [of 42, THEN conjunct1]
    sav_tag_capped [of 999, THEN conjunct1]
    sav_tag_capped [of 1000, THEN conjunct2, THEN conjunct1]
    sav_tag_capped [of 123456, THEN conjunct2, THEN conjunct1]
  have w1: "sav_tag 7 = ''007'' \<and> sav_tag 42 = ''042'' \<and> sav_tag 999 = ''999''
    \<and> sav_tag 1000 = ''sav'' \<and> sav_tag 123456 = ''sav''
    \<and> cnf_prefix @ sav_tag 1000 = cnf_prefix @ sav_tag 123456"
    by (simp add: digit_char_def)
  obtain s7 where b7: "block (example_env []) example_hs (example_params 0) 7 ?s = Inr s7"
    using ex_block [of 7]
    by (cases "block (example_env []) example_hs (example_params 0) 7 ?s") auto
  obtain s1000 where
    b1000: "block (example_env []) example_hs (example_params 0) 1000 ?s = Inr s1000"
    using ex_block [of 1000]
    by (cases "block (example_env []) example_hs (example_params 0) 1000 ?s") auto
  have r7: "(1::int) \<le> 7 \<and> (7::int) \<le> 999 \<and>
      block (example_env []) example_hs (example_params 0) 7 ?s = Inr s7"
    using b7 by simp
  have r1000: "(1000::int) \<le> 1000 \<and>
      block (example_env []) example_hs (example_params 0) 1000 ?s = Inr s1000"
    using b1000 by simp
  from sav_tag_capped
         [THEN conjunct2, THEN conjunct2, THEN conjunct2, THEN conjunct1, rule_format, OF r7]
       t0
  have n7: "snapshot_names (trace s7) = [''cnf.007'']"
    by (simp add: digit_char_def)
  from sav_tag_capped
         [THEN conjunct2, THEN conjunct2, THEN conjunct2, THEN conjunct2, rule_format, OF r1000]
       t0
  have n1000: "snapshot_names (trace s1000) = [''cnf.sav'']"
    by simp
  from n7 n1000 b7 b1000
  have w2: "map_sum fst (snapshot_names \<circ> trace)
        (block (example_env []) example_hs (example_params 0) 7 ?s) = Inr [''cnf.007'']
    \<and> map_sum fst (snapshot_names \<circ> trace)
        (block (example_env []) example_hs (example_params 0) 1000 ?s) = Inr [''cnf.sav'']"
    by simp
  from w1 w2 show ?thesis by (rule conjI)
qed

end
